theory Spec2Isabelle
  imports Main "HOL-Library.AList" "HOL-Library.Option_ord"
begin

section \<open>Python values used by the streaming handlers\<close>

text \<open>
  The development embeds the streaming core of \<^verbatim>\<open>webserver.py\<close> (\<^verbatim>\<open>stream_handler\<close>,
  \<^verbatim>\<open>ByteStreamer.yield_file\<close>) and of \<^verbatim>\<open>app.py\<close> (\<^verbatim>\<open>stream_media\<close>, the same
  \<^verbatim>\<open>yield_file\<close>). Python's unbounded integers are \<^typ>\<open>int\<close>, byte strings are lists of
  \<^typ>\<open>nat\<close>, text is \<^typ>\<open>string\<close>, and a raised exception is the left summand of a sum type.
\<close>

datatype exn =
    HTTPException int
  | FileNotFoundError
  | ValueError
  | KeyError
  | NameError
  | UnboundLocalError
  | OverflowError
  | ZeroDivisionError
  | AttributeError
  | BackendError

subsection \<open>Dictionaries in insertion order\<close>

text \<open>
  \<^verbatim>\<open>work_loads\<close> and \<^verbatim>\<open>multi_clients\<close> are Python dicts: iteration follows insertion order,
  and assigning to an existing key keeps its position. An association list with
  \<^const>\<open>map_of\<close> for lookup and \<^const>\<open>AList.update\<close> for assignment behaves the same way.
\<close>

type_synonym ('k, 'v) dict = "('k \<times> 'v) list"

definition dict_get :: "('k, 'v) dict \<Rightarrow> 'k \<Rightarrow> 'v option" where
  "dict_get d k = map_of d k"

definition dict_keys :: "('k, 'v) dict \<Rightarrow> 'k list" where
  "dict_keys d = map fst d"

definition dict_set :: "('k, 'v) dict \<Rightarrow> 'k \<Rightarrow> 'v \<Rightarrow> ('k, 'v) dict" where
  "dict_set d k v = AList.update k v d"

text \<open>
  \<^verbatim>\<open>min(iterable, key=f, default=d)\<close>: the default for an empty iterable, otherwise the
  first item whose key is minimal (a later item replaces the current one only when its key
  is strictly smaller).
\<close>

fun min_loop :: "('a \<Rightarrow> 'b::linorder) \<Rightarrow> 'a \<Rightarrow> 'a list \<Rightarrow> 'a" where
  "min_loop key best [] = best"
| "min_loop key best (x # xs) =
     (if key x < key best then min_loop key x xs else min_loop key best xs)"

definition py_min :: "'a list \<Rightarrow> ('a \<Rightarrow> 'b::linorder) \<Rightarrow> 'a \<Rightarrow> 'a" where
  "py_min xs key dflt = (case xs of [] \<Rightarrow> dflt | x # rest \<Rightarrow> min_loop key x rest)"

text \<open>
  \<^verbatim>\<open>index = min(work_loads, key=work_loads.get, default=0)\<close>, the first statement of both
  handlers that touches the pool.
\<close>

definition select_index :: "(int, int) dict \<Rightarrow> int" where
  "select_index work_loads = py_min (dict_keys work_loads) (dict_get work_loads) 0"


subsection \<open>Strings: \<^verbatim>\<open>replace\<close>, \<^verbatim>\<open>split\<close>, \<^verbatim>\<open>int\<close>, \<^verbatim>\<open>str\<close>\<close>

text \<open>
  A header value is a string of 8-bit characters. \<^verbatim>\<open>s.replace(old, new)\<close> replaces the
  occurrences of \<^verbatim>\<open>old\<close> from left to right without overlap; an empty \<^verbatim>\<open>old\<close> matches
  before every character and at the end.
\<close>

function py_replace :: "string \<Rightarrow> string \<Rightarrow> string \<Rightarrow> string" where
  "py_replace s old new =
     (if old = [] then new @ concat (map (\<lambda>c. c # new) s)
      else if s = [] then []
      else if take (length old) s = old then new @ py_replace (drop (length old) s) old new
      else hd s # py_replace (tl s) old new)"
  by pat_completeness auto
termination
  by (relation "measure (\<lambda>(s, old, new). length s)") auto

declare py_replace.simps [simp del]

text \<open>\<^verbatim>\<open>s.split(sep)\<close> for a separator of one character: the fields between the separators.\<close>

fun py_split :: "string \<Rightarrow> char \<Rightarrow> string list" where
  "py_split [] sep = [[]]"
| "py_split (c # cs) sep =
     (if c = sep then [] # py_split cs sep
      else (case py_split cs sep of [] \<Rightarrow> [[c]] | p # ps \<Rightarrow> (c # p) # ps))"

text \<open>
  \<^verbatim>\<open>int(s)\<close> in base ten: surrounding whitespace is stripped, one sign may lead, and the
  digits may be grouped by single underscores; anything else raises \<^verbatim>\<open>ValueError\<close>.
  Among 8-bit characters the whitespace that \<^verbatim>\<open>int\<close> strips is the codes 9 to 13, 32, 133
  and 160 (not the separators 28 to 31, which \<^verbatim>\<open>str.isspace\<close> accepts), and the decimal
  digits are \<^verbatim>\<open>0\<close> to \<^verbatim>\<open>9\<close>. (The interpreter's optional cap on the number of digits of a
  literal is left out.)
\<close>

definition py_isspace :: "char \<Rightarrow> bool" where
  "py_isspace c = (of_char c \<in> {9, 10, 11, 12, 13, 32, 133, 160 :: nat})"

definition py_strip :: "string \<Rightarrow> string" where
  "py_strip s = rev (dropWhile py_isspace (rev (dropWhile py_isspace s)))"

definition is_digit :: "char \<Rightarrow> bool" where
  "is_digit c = (48 \<le> (of_char c :: nat) \<and> (of_char c :: nat) \<le> 57)"

definition digit_value :: "char \<Rightarrow> int" where
  "digit_value c = int (of_char c) - 48"

fun int_digits :: "int \<Rightarrow> string \<Rightarrow> int option" where
  "int_digits acc [] = Some acc"
| "int_digits acc (c # cs) =
     (if is_digit c then int_digits (10 * acc + digit_value c) cs
      else if c = CHR ''_'' then
        (case cs of
           [] \<Rightarrow> None
         | d # ds \<Rightarrow> if is_digit d then int_digits (10 * acc + digit_value d) ds else None)
      else None)"

definition unsigned_int :: "string \<Rightarrow> int option" where
  "unsigned_int s =
     (case s of
        [] \<Rightarrow> None
      | d # ds \<Rightarrow> if is_digit d then int_digits (digit_value d) ds else None)"

definition py_int :: "string \<Rightarrow> exn + int" where
  "py_int s =
     (let t = py_strip s;
          r = (case t of
                 [] \<Rightarrow> None
               | c # cs \<Rightarrow>
                   if c = CHR ''-'' then map_option uminus (unsigned_int cs)
                   else if c = CHR ''+'' then unsigned_int cs
                   else unsigned_int t)
      in case r of None \<Rightarrow> Inl ValueError | Some n \<Rightarrow> Inr n)"

text \<open>\<^verbatim>\<open>str(n)\<close> for an integer, as the f-strings and \<^verbatim>\<open>str(req_length)\<close> print it.\<close>

function digits :: "int \<Rightarrow> string" where
  "digits n =
     (if n < 10 then [char_of (48 + n)] else digits (n div 10) @ [char_of (48 + n mod 10)])"
  by pat_completeness auto
termination
  by (relation "measure nat") auto

declare digits.simps [simp del]

definition py_str :: "int \<Rightarrow> string" where
  "py_str n = (if n < 0 then CHR ''-'' # digits (- n) else digits n)"

text \<open>An optional string inside an f-string: \<^verbatim>\<open>None\<close> prints as the word None.\<close>

definition fmt_opt :: "string option \<Rightarrow> string" where
  "fmt_opt s = (case s of None \<Rightarrow> ''None'' | Some t \<Rightarrow> t)"

subsection \<open>True division, \<^verbatim>\<open>math.ceil\<close> and slices\<close>

text \<open>
  \<^verbatim>\<open>a / b\<close> on two integers is the quotient rounded to the nearest double (ties to the
  even significand); it raises \<^verbatim>\<open>ZeroDivisionError\<close> for a zero divisor and
  \<^verbatim>\<open>OverflowError\<close> when the rounded quotient reaches \<open>2 ^ 1024\<close>. A finite double is kept
  here as a pair \<open>(m, e)\<close> standing for \<open>m * 2 ^ e\<close>: a significand of at most 53 bits and an
  exponent that is at least \<open>- 1074\<close>.
\<close>

type_synonym pyfloat = "int \<times> int"

function bit_length :: "int \<Rightarrow> int" where
  "bit_length n = (if n \<le> 0 then 0 else 1 + bit_length (n div 2))"
  by pat_completeness auto
termination
  by (relation "measure nat") auto

declare bit_length.simps [simp del]

definition round_half_even :: "int \<Rightarrow> int \<Rightarrow> int" where
  "round_half_even num den =
     (let q = num div den; r = num mod den
      in if den < 2 * r \<or> (2 * r = den \<and> odd q) then q + 1 else q)"

text \<open>
  The exponent of the result for positive \<open>x\<close> and \<open>y\<close>: with
  \<open>d = bit_length x - bit_length y\<close> the quotient lies between \<open>2 ^ (d - 1)\<close> and
  \<open>2 ^ (d + 1)\<close>, and the significand is scaled to 53 bits (fewer for a subnormal result).
\<close>

definition float_exponent :: "int \<Rightarrow> int \<Rightarrow> int" where
  "float_exponent x y =
     (let d = bit_length x - bit_length y;
          at_least = (if 0 \<le> d then y * 2 ^ nat d \<le> x else y \<le> x * 2 ^ nat (- d))
      in max ((if at_least then d else d - 1) - 52) (- 1074))"

definition py_truediv :: "int \<Rightarrow> int \<Rightarrow> exn + pyfloat" where
  "py_truediv a b =
     (if b = 0 then Inl ZeroDivisionError
      else if a = 0 then Inr (0, 0)
      else
        let x = \<bar>a\<bar>; y = \<bar>b\<bar>;
            e = float_exponent x y;
            m = (if 0 \<le> e then round_half_even x (y * 2 ^ nat e)
                 else round_half_even (x * 2 ^ nat (- e)) y)
        in if 0 \<le> e \<and> 2 ^ 1024 \<le> m * 2 ^ nat e then Inl OverflowError
           else Inr (sgn a * sgn b * m, e))"

text \<open>\<^verbatim>\<open>math.ceil(x)\<close> of a finite double: the exact ceiling, an unbounded integer.\<close>

definition py_ceil :: "pyfloat \<Rightarrow> int" where
  "py_ceil x =
     (case x of (m, e) \<Rightarrow> if 0 \<le> e then m * 2 ^ nat e else - ((- m) div 2 ^ nat (- e)))"

text \<open>
  A slice \<^verbatim>\<open>xs[start:stop]\<close> with step one. A negative bound counts from the end, every
  bound is clipped to the length, and the slice is empty when the stop is not after the
  start. \<^const>\<open>None\<close> is an omitted bound.
\<close>

definition slice_index :: "int \<Rightarrow> int \<Rightarrow> int" where
  "slice_index i n = (if i < 0 then max 0 (i + n) else min i n)"

definition py_slice :: "'a list \<Rightarrow> int option \<Rightarrow> int option \<Rightarrow> 'a list" where
  "py_slice xs start stop =
     (let n = int (length xs);
          lo = (case start of None \<Rightarrow> 0 | Some i \<Rightarrow> slice_index i n);
          hi = (case stop of None \<Rightarrow> n | Some j \<Rightarrow> slice_index j n)
      in take (nat (hi - lo)) (drop (nat lo) xs))"

section \<open>\<^verbatim>\<open>ByteStreamer.yield_file\<close>\<close>

text \<open>
  The generator talks to three things outside the repository, which are parameters here:
  \<^item> the media-session lookup and creation and \<^verbatim>\<open>get_location\<close> that run between the
    counter's increment and the \<^verbatim>\<open>try\<close> (lines 64 to 72 of \<^verbatim>\<open>webserver.py\<close>): either
    they complete (\<^const>\<open>None\<close>) or one of them raises;
  \<^item> the backend: what the \<open>k\<close>-th \<^verbatim>\<open>GetFile(location, offset, limit)\<close> call returns, given
    the number \<open>k\<close> of earlier calls, the offset and the limit: an \<^verbatim>\<open>upload.File\<close> with its
    bytes, a value of another type, or an exception raised inside the \<^verbatim>\<open>await\<close> (a
    cancellation arrives this way too);
  \<^item> the consumer: it iterates to the end (\<^const>\<open>None\<close>) or takes \<open>n\<close> items and then
    closes the generator at the \<^verbatim>\<open>yield\<close> where it is suspended (\<open>Some n\<close>). A generator
    that is closed before its first item was requested never runs its body.
\<close>

type_synonym bytes = "nat list"

datatype fetch_result = File bytes | NotFile | FetchRaises exn

type_synonym backend = "nat \<Rightarrow> int \<Rightarrow> int \<Rightarrow> fetch_result"

datatype outcome = NotStarted | Exhausted | Closed | Raised exn

record FileId =
  dc_id :: int
  media_id :: int
  access_hash :: int

text \<open>
  What a run of the generator does, in program order: an assignment of a new value to
  \<^verbatim>\<open>work_loads[index]\<close>, a \<^verbatim>\<open>GetFile\<close> call with its offset and limit, a chunk handed to
  the consumer by \<^verbatim>\<open>yield\<close>.
\<close>

datatype event = SetLoad int int | GetFile int int | Yield bytes

fun fetches :: "event list \<Rightarrow> int list" where
  "fetches [] = []"
| "fetches (GetFile offset limit # es) = offset # fetches es"
| "fetches (SetLoad index v # es) = fetches es"
| "fetches (Yield chunk # es) = fetches es"

fun yields :: "event list \<Rightarrow> bytes list" where
  "yields [] = []"
| "yields (Yield chunk # es) = chunk # yields es"
| "yields (SetLoad index v # es) = yields es"
| "yields (GetFile offset limit # es) = yields es"

fun stores :: "event list \<Rightarrow> (int \<times> int) list" where
  "stores [] = []"
| "stores (SetLoad index v # es) = (index, v) # stores es"
| "stores (GetFile offset limit # es) = stores es"
| "stores (Yield chunk # es) = stores es"

record run =
  events :: "event list"
  outcome :: outcome
  loads :: "(int, int) dict"

text \<open>The offsets of the \<^verbatim>\<open>GetFile\<close> calls of a run, and the chunks it yielded.\<close>

definition fetched :: "run \<Rightarrow> int list" where
  "fetched r = fetches (events r)"

definition yielded :: "run \<Rightarrow> bytes list" where
  "yielded r = yields (events r)"

text \<open>
  The \<^verbatim>\<open>while current_part <= part_count\<close> loop inside the \<^verbatim>\<open>try\<close>. It returns the
  \<^verbatim>\<open>GetFile\<close> calls issued and the chunks yielded, in order, and how the loop was left.
\<close>

function yield_loop ::
  "backend \<Rightarrow> nat option \<Rightarrow> int \<Rightarrow> int \<Rightarrow> int \<Rightarrow> int \<Rightarrow> int \<Rightarrow> int
     \<Rightarrow> event list \<times> outcome" where
  "yield_loop send consumer current_part offset first_part_cut last_part_cut part_count chunk_size =
     (if current_part \<le> part_count then
        (case send (nat (current_part - 1)) offset chunk_size of
           File chunk \<Rightarrow>
             if chunk = [] then ([GetFile offset chunk_size], Exhausted)
             else
               let piece =
                 (if part_count = 1 then py_slice chunk (Some first_part_cut) (Some last_part_cut)
                  else if current_part = 1 then py_slice chunk (Some first_part_cut) None
                  else if current_part = part_count then py_slice chunk None (Some last_part_cut)
                  else chunk)
               in if consumer = Some 1 then ([GetFile offset chunk_size, Yield piece], Closed)
                  else
                    (case yield_loop send (map_option (\<lambda>n. n - 1) consumer) (current_part + 1)
                            (offset + chunk_size) first_part_cut last_part_cut part_count chunk_size of
                       (es, out) \<Rightarrow> (GetFile offset chunk_size # Yield piece # es, out))
         | NotFile \<Rightarrow> ([GetFile offset chunk_size], Exhausted)
         | FetchRaises e \<Rightarrow> ([GetFile offset chunk_size], Raised e))
      else ([], Exhausted))"
  by pat_completeness auto
termination
  by (relation "measure (\<lambda>(send, consumer, current_part, offset, first_part_cut, last_part_cut,
        part_count, chunk_size). nat (part_count + 1 - current_part))") auto

declare yield_loop.simps [simp del]

text \<open>
  The whole generator: \<^verbatim>\<open>work_loads[index] += 1\<close>, the session set-up, the loop under
  \<^verbatim>\<open>try\<close>, and \<^verbatim>\<open>work_loads[index] -= 1\<close> under \<^verbatim>\<open>finally\<close>. The result records the events
  of the run and the final \<^verbatim>\<open>work_loads\<close>.
\<close>

definition yield_file ::
  "(int, int) dict \<Rightarrow> exn option \<Rightarrow> backend \<Rightarrow> nat option
     \<Rightarrow> FileId \<Rightarrow> int \<Rightarrow> int \<Rightarrow> int \<Rightarrow> int \<Rightarrow> int \<Rightarrow> int \<Rightarrow> run" where
  "yield_file work_loads session_setup send consumer
       file_id index offset first_part_cut last_part_cut part_count chunk_size =
     (if consumer = Some 0 then
        \<lparr>events = [], outcome = NotStarted, loads = work_loads\<rparr>
      else
        (case dict_get work_loads index of
           None \<Rightarrow> \<lparr>events = [], outcome = Raised KeyError, loads = work_loads\<rparr>
         | Some n \<Rightarrow>
             let work_loads1 = dict_set work_loads index (n + 1) in
             (case session_setup of
                Some e \<Rightarrow>
                  \<lparr>events = [SetLoad index (n + 1)], outcome = Raised e, loads = work_loads1\<rparr>
              | None \<Rightarrow>
                  (case yield_loop send consumer 1 offset first_part_cut last_part_cut
                          part_count chunk_size of
                     (es, out) \<Rightarrow>
                       (case dict_get work_loads1 index of
                          None \<Rightarrow>
                            \<lparr>events = SetLoad index (n + 1) # es, outcome = Raised KeyError,
                             loads = work_loads1\<rparr>
                        | Some m \<Rightarrow>
                            \<lparr>events = SetLoad index (n + 1) # es @ [SetLoad index (m - 1)],
                             outcome = out,
                             loads = dict_set work_loads1 index (m - 1)\<rparr>)))))"

text \<open>The number of body bytes a run delivered.\<close>

definition total_bytes :: "run \<Rightarrow> nat" where
  "total_bytes r = sum_list (map length (yielded r))"

section \<open>The \<^verbatim>\<open>/dl\<close> handlers\<close>

text \<open>
  What the handlers read of a stored message, of a client and of the response they build.
  The field names carry the object's name as a prefix: \<open>media_file_size m\<close> is
  \<^verbatim>\<open>media.file_size\<close>. A response keeps the arguments of the \<^verbatim>\<open>yield_file\<close> call that is its
  body; the generator runs only when the transport iterates it.
\<close>

record media =
  media_file_id :: string
  media_file_size :: int
  media_mime_type :: "string option"
  media_file_name :: "string option"

record message =
  message_document :: "media option"
  message_video :: "media option"
  message_audio :: "media option"
  message_empty :: bool

record client =
  get_messages :: "int \<Rightarrow> exn + message"

record body_args =
  body_file_id :: FileId
  body_index :: int
  body_offset :: int
  body_first_part_cut :: int
  body_last_part_cut :: int
  body_part_count :: int
  body_chunk_size :: int

record response =
  status_code :: int
  headers :: "(string, string) dict"
  body :: body_args

record plan =
  plan_req_length :: int
  plan_offset :: int
  plan_first_part_cut :: int
  plan_last_part_cut :: int
  plan_part_count :: int

definition and_then :: "exn + 'a \<Rightarrow> ('a \<Rightarrow> exn + 'b) \<Rightarrow> exn + 'b" where
  "and_then r f = (case r of Inl e \<Rightarrow> Inl e | Inr x \<Rightarrow> f x)"

text \<open>The iteration of a response body by the transport.\<close>

definition run_body ::
  "(int, int) dict \<Rightarrow> exn option \<Rightarrow> backend \<Rightarrow> nat option \<Rightarrow> body_args \<Rightarrow> run" where
  "run_body work_loads session_setup send consumer b =
     yield_file work_loads session_setup send consumer (body_file_id b) (body_index b)
       (body_offset b) (body_first_part_cut b) (body_last_part_cut b) (body_part_count b)
       (body_chunk_size b)"

text \<open>
  The status the HTTP client sees: the response's own, the status of a raised
  \<^verbatim>\<open>HTTPException\<close>, and 500 for any other exception that leaves the handler.
\<close>

definition http_status :: "exn + response \<Rightarrow> int" where
  "http_status r =
     (case r of
        Inr resp \<Rightarrow> status_code resp
      | Inl (HTTPException s) \<Rightarrow> s
      | Inl _ \<Rightarrow> 500)"

text \<open>\<^verbatim>\<open>request.headers.get("Range", 0)\<close> as a condition: absent and empty are both false.\<close>

definition truthy :: "string option \<Rightarrow> bool" where
  "truthy h = (case h of None \<Rightarrow> False | Some s \<Rightarrow> s \<noteq> [])"

definition chunk_size :: int where
  "chunk_size = 1024 * 1024"

definition mime_or_default :: "media \<Rightarrow> string" where
  "mime_or_default m =
     (case media_mime_type m of
        None \<Rightarrow> ''application/octet-stream''
      | Some t \<Rightarrow> if t = [] then ''application/octet-stream'' else t)"

definition content_range :: "int \<Rightarrow> int \<Rightarrow> int \<Rightarrow> string" where
  "content_range from_bytes until_bytes file_size =
     ''bytes '' @ py_str from_bytes @ ''-'' @ py_str until_bytes @ ''/'' @ py_str file_size"

definition content_disposition :: "media \<Rightarrow> string" where
  "content_disposition m =
     ''inline; filename='' @ [CHR 0x22] @ fmt_opt (media_file_name m) @ [CHR 0x22]"

subsection \<open>\<^verbatim>\<open>webserver.py\<close>: \<^verbatim>\<open>stream_handler\<close>\<close>

text \<open>Lines 150 to 153: the media of the message, or \<^verbatim>\<open>FileNotFoundError\<close>.\<close>

definition find_media :: "message \<Rightarrow> exn + media" where
  "find_media msg =
     (if \<not> (message_video msg \<noteq> None \<or> message_document msg \<noteq> None \<or> message_audio msg \<noteq> None)
         \<or> message_empty msg
      then Inl FileNotFoundError
      else
        (case message_document msg of
           Some m \<Rightarrow> Inr m
         | None \<Rightarrow>
             (case message_video msg of
                Some m \<Rightarrow> Inr m
              | None \<Rightarrow>
                  (case message_audio msg of Some m \<Rightarrow> Inr m | None \<Rightarrow> Inl AttributeError))))"

text \<open>Lines 157 to 163: the requested first and last byte.\<close>

definition requested_range :: "string option \<Rightarrow> int \<Rightarrow> exn + int \<times> int" where
  "requested_range range_header file_size =
     (case range_header of
        None \<Rightarrow> Inr (0, file_size - 1)
      | Some h \<Rightarrow>
          if h = [] then Inr (0, file_size - 1)
          else
            (case py_split (py_replace h ''bytes='' '''') CHR ''-'' of
               [from_bytes_str, until_bytes_str] \<Rightarrow>
                 and_then (py_int from_bytes_str) (\<lambda>from_bytes.
                   if until_bytes_str \<noteq> [] then
                     and_then (py_int until_bytes_str)
                       (\<lambda>until_bytes. Inr (from_bytes, until_bytes))
                   else Inr (from_bytes, file_size - 1))
             | _ \<Rightarrow> Inl ValueError))"

text \<open>Lines 165 to 173: the range check and the plan.\<close>

definition range_plan :: "int \<Rightarrow> int \<Rightarrow> int \<Rightarrow> exn + plan" where
  "range_plan file_size from_bytes until_bytes =
     (if until_bytes \<ge> file_size \<or> from_bytes < 0 then Inl (HTTPException 416)
      else
        let req_length = until_bytes - from_bytes + 1;
            offset = from_bytes - (from_bytes mod chunk_size);
            first_part_cut = from_bytes - offset;
            last_part_cut = (until_bytes mod chunk_size) + 1
        in and_then (py_truediv req_length chunk_size) (\<lambda>q.
             Inr \<lparr>plan_req_length = req_length, plan_offset = offset,
                  plan_first_part_cut = first_part_cut, plan_last_part_cut = last_part_cut,
                  plan_part_count = py_ceil q\<rparr>))"

definition plan_body :: "FileId \<Rightarrow> int \<Rightarrow> plan \<Rightarrow> body_args" where
  "plan_body file_id index p =
     \<lparr>body_file_id = file_id, body_index = index, body_offset = plan_offset p,
      body_first_part_cut = plan_first_part_cut p, body_last_part_cut = plan_last_part_cut p,
      body_part_count = plan_part_count p, body_chunk_size = chunk_size\<rparr>"

text \<open>Lines 148 to 187: the body of the \<^verbatim>\<open>try\<close>.\<close>

definition stream_handler_try ::
  "client \<Rightarrow> (string \<Rightarrow> exn + FileId) \<Rightarrow> int \<Rightarrow> string option \<Rightarrow> int \<Rightarrow> exn + response" where
  "stream_handler_try cl decode index range_header msg_id =
     and_then (get_messages cl msg_id) (\<lambda>msg.
     and_then (find_media msg) (\<lambda>m.
     and_then (decode (media_file_id m)) (\<lambda>file_id.
       let file_size = media_file_size m in
       and_then (requested_range range_header file_size) (\<lambda>(from_bytes, until_bytes).
       and_then (range_plan file_size from_bytes until_bytes) (\<lambda>p.
         Inr \<lparr>status_code = (if truthy range_header then 206 else 200),
              headers =
                [(''Content-Type'', mime_or_default m),
                 (''Content-Range'', content_range from_bytes until_bytes file_size),
                 (''Content-Length'', py_str (plan_req_length p)),
                 (''Accept-Ranges'', ''bytes''),
                 (''Content-Disposition'', content_disposition m)],
              body = plan_body file_id index p\<rparr>)))))"

text \<open>
  Lines 135 to 192. The 503 is raised outside the \<^verbatim>\<open>try\<close>. Inside it,
  \<^verbatim>\<open>FileNotFoundError\<close> becomes a 404; every other exception, an \<^verbatim>\<open>HTTPException\<close> raised in
  the \<^verbatim>\<open>try\<close> included, reaches \<^verbatim>\<open>except Exception\<close>, whose \<^verbatim>\<open>print\<close> names the module
  \<^verbatim>\<open>traceback\<close> that this file never imports: a \<^verbatim>\<open>NameError\<close> leaves the handler.
\<close>

definition stream_handler ::
  "(int, int) dict \<Rightarrow> (int, client) dict \<Rightarrow> (string \<Rightarrow> exn + FileId) \<Rightarrow> string option \<Rightarrow> int
     \<Rightarrow> exn + response" where
  "stream_handler work_loads multi_clients decode range_header msg_id =
     (let index = select_index work_loads in
      case dict_get multi_clients index of
        None \<Rightarrow> Inl (HTTPException 503)
      | Some cl \<Rightarrow>
          (case stream_handler_try cl decode index range_header msg_id of
             Inr resp \<Rightarrow> Inr resp
           | Inl FileNotFoundError \<Rightarrow> Inl (HTTPException 404)
           | Inl _ \<Rightarrow> Inl NameError))"

subsection \<open>\<^verbatim>\<open>app.py\<close>: \<^verbatim>\<open>stream_media\<close>\<close>

text \<open>Lines 114 and 115.\<close>

definition find_media_app :: "message \<Rightarrow> exn + media" where
  "find_media_app msg =
     (let m = (case message_document msg of
                 Some d \<Rightarrow> Some d
               | None \<Rightarrow> (case message_video msg of Some v \<Rightarrow> Some v | None \<Rightarrow> message_audio msg))
      in case m of
           None \<Rightarrow> Inl FileNotFoundError
         | Some x \<Rightarrow> if message_empty msg then Inl FileNotFoundError else Inr x)"

text \<open>
  Lines 116 to 118. The test \<^verbatim>\<open>if ubs:\<close> stands beside \<^verbatim>\<open>if rh:\<close>, not under it: without
  a range header the name \<^verbatim>\<open>ubs\<close> was never bound when it is read.
\<close>

definition requested_range_app :: "string option \<Rightarrow> int \<Rightarrow> exn + int \<times> int" where
  "requested_range_app rh fsize =
     (case rh of
        None \<Rightarrow> Inl UnboundLocalError
      | Some h \<Rightarrow>
          if h = [] then Inl UnboundLocalError
          else
            (case py_split (py_replace h ''bytes='' '''') CHR ''-'' of
               [fbs, ubs] \<Rightarrow>
                 and_then (py_int fbs) (\<lambda>fb.
                   if ubs \<noteq> [] then and_then (py_int ubs) (\<lambda>ub. Inr (fb, ub))
                   else Inr (fb, fsize - 1))
             | _ \<Rightarrow> Inl ValueError))"

text \<open>Lines 119 and 120.\<close>

definition range_plan_app :: "int \<Rightarrow> int \<Rightarrow> int \<Rightarrow> exn + plan" where
  "range_plan_app fsize fb ub =
     (if ub \<ge> fsize \<or> fb < 0 then Inl (HTTPException 416)
      else
        let rl = ub - fb + 1;
            cs = 1024 * 1024;
            off = (fb div cs) * cs;
            fc = fb - off;
            lc = (ub mod cs) + 1
        in and_then (py_truediv rl cs) (\<lambda>q.
             Inr \<lparr>plan_req_length = rl, plan_offset = off, plan_first_part_cut = fc,
                  plan_last_part_cut = lc, plan_part_count = py_ceil q\<rparr>))"

text \<open>Lines 113 to 124: the body of the \<^verbatim>\<open>try\<close>.\<close>

definition stream_media_try ::
  "client \<Rightarrow> (string \<Rightarrow> exn + FileId) \<Rightarrow> int \<Rightarrow> string option \<Rightarrow> int \<Rightarrow> exn + response" where
  "stream_media_try c decode i rh mid =
     and_then (get_messages c mid) (\<lambda>msg.
     and_then (find_media_app msg) (\<lambda>m.
     and_then (decode (media_file_id m)) (\<lambda>fid.
       let fsize = media_file_size m in
       and_then (requested_range_app rh fsize) (\<lambda>(fb, ub).
       and_then (range_plan_app fsize fb ub) (\<lambda>p.
         Inr \<lparr>status_code = (if truthy rh then 206 else 200),
              headers =
                [(''Content-Type'', mime_or_default m),
                 (''Accept-Ranges'', ''bytes''),
                 (''Content-Disposition'', content_disposition m),
                 (''Content-Length'', py_str (plan_req_length p))]
                @ (if truthy rh then [(''Content-Range'', content_range fb ub fsize)] else []),
              body = plan_body fid i p\<rparr>)))))"

text \<open>
  Lines 109 to 126: \<^verbatim>\<open>except Exception\<close> prints the traceback (the module is imported here)
  and raises a 500, also for an \<^verbatim>\<open>HTTPException\<close> raised inside the \<^verbatim>\<open>try\<close>.
\<close>

definition stream_media ::
  "(int, int) dict \<Rightarrow> (int, client) dict \<Rightarrow> (string \<Rightarrow> exn + FileId) \<Rightarrow> string option \<Rightarrow> int
     \<Rightarrow> exn + response" where
  "stream_media work_loads multi_clients decode rh mid =
     (let i = select_index work_loads in
      case dict_get multi_clients i of
        None \<Rightarrow> Inl (HTTPException 503)
      | Some c \<Rightarrow>
          (case stream_media_try c decode i rh mid of
             Inr resp \<Rightarrow> Inr resp
           | Inl FileNotFoundError \<Rightarrow> Inl (HTTPException 404)
           | Inl _ \<Rightarrow> Inl (HTTPException 500)))"

section \<open>A stored file and a one-session pool\<close>

text \<open>
  The file of the worked examples: three chunks of 1,048,576 bytes, stored as a document,
  fetched through the only registered session (identifier 0, idle).
\<close>

definition example_media :: "int \<Rightarrow> media" where
  "example_media fsize =
     \<lparr>media_file_id = ''file-id'', media_file_size = fsize,
      media_mime_type = Some ''video/mp4'', media_file_name = Some ''clip.mp4''\<rparr>"

definition example_message :: "int \<Rightarrow> message" where
  "example_message fsize =
     \<lparr>message_document = Some (example_media fsize), message_video = None,
      message_audio = None, message_empty = False\<rparr>"

definition example_client :: "int \<Rightarrow> client" where
  "example_client fsize = \<lparr>get_messages = (\<lambda>msg_id. Inr (example_message fsize))\<rparr>"

definition example_decode :: "string \<Rightarrow> exn + FileId" where
  "example_decode s = Inr \<lparr>dc_id = 2, media_id = 1, access_hash = 0\<rparr>"

definition example_loads :: "(int, int) dict" where
  "example_loads = [(0, 0)]"

definition example_clients :: "int \<Rightarrow> (int, client) dict" where
  "example_clients fsize = [(0, example_client fsize)]"

text \<open>
  The bytes a plan stands for under the slicing rule of \<^verbatim>\<open>yield_file\<close> when every chunk
  fetched is full: \<^verbatim>\<open>chunk[first_part_cut:last_part_cut]\<close> for a single part, otherwise
  \<^verbatim>\<open>chunk[first_part_cut:]\<close>, the whole chunks between, and \<^verbatim>\<open>chunk[:last_part_cut]\<close>.
\<close>

definition implied_bytes :: "plan \<Rightarrow> int" where
  "implied_bytes p =
     (if plan_part_count p = 1 then plan_last_part_cut p - plan_first_part_cut p
      else (chunk_size - plan_first_part_cut p) + (plan_part_count p - 2) * chunk_size
           + plan_last_part_cut p)"
section \<open>Least-loaded selection\<close>

lemma min_loop_mem: "min_loop key best xs \<in> set (best # xs)"
  by (induction xs arbitrary: best) auto

lemma min_loop_le_best: "key (min_loop key best xs) \<le> key best"
proof (induction xs arbitrary: best)
  case Nil
  show ?case by simp
next
  case (Cons x xs)
  show ?case
  proof (cases "key x < key best")
    case True
    have "key (min_loop key x xs) \<le> key x" by (rule Cons.IH)
    with True show ?thesis by simp
  next
    case False
    with Cons.IH [of best] show ?thesis by simp
  qed
qed

lemma min_loop_le: "y \<in> set (best # xs) \<Longrightarrow> key (min_loop key best xs) \<le> key y"
proof (induction xs arbitrary: best)
  case Nil
  then show ?case by simp
next
  case (Cons x xs)
  show ?case
  proof (cases "key x < key best")
    case True
    have le_x: "key (min_loop key x xs) \<le> key x" by (rule min_loop_le_best)
    from Cons.prems consider "y = best" | "y \<in> set (x # xs)" by auto
    then show ?thesis
    proof cases
      case 1
      with True le_x show ?thesis by simp
    next
      case 2
      with Cons.IH [of x] True show ?thesis by simp
    qed
  next
    case False
    from Cons.prems consider "y = x" | "y \<in> set (best # xs)" by auto
    then show ?thesis
    proof cases
      case 1
      have "key (min_loop key best xs) \<le> key best" by (rule min_loop_le_best)
      with False 1 show ?thesis by simp
    next
      case 2
      with Cons.IH [of best] False show ?thesis by simp
    qed
  qed
qed

lemma min_loop_best_or_less:
  "min_loop key best xs = best \<or> key (min_loop key best xs) < key best"
proof (induction xs arbitrary: best)
  case Nil
  show ?case by simp
next
  case (Cons x xs)
  show ?case
  proof (cases "key x < key best")
    case True
    have "key (min_loop key x xs) \<le> key x" by (rule min_loop_le_best)
    with True have "key (min_loop key x xs) < key best" by simp
    with True show ?thesis by simp
  next
    case False
    with Cons.IH [of best] show ?thesis by simp
  qed
qed

text \<open>
  On a list in strictly ascending order the loop returns the least of the items with the
  minimal key: an item is replaced only by a later, strictly better one.
\<close>

lemma min_loop_first:
  "sorted_wrt (<) (best # xs) \<Longrightarrow> y \<in> set (best # xs) \<Longrightarrow>
   key y = key (min_loop key best xs) \<Longrightarrow> min_loop key best xs \<le> (y::'a::linorder)"
proof (induction xs arbitrary: best)
  case Nil
  then show ?case by simp
next
  case (Cons x xs)
  from Cons.prems(1) have sx: "sorted_wrt (<) (x # xs)" and sb: "sorted_wrt (<) (best # xs)"
    and bx: "best < x" by auto
  show ?case
  proof (cases "key x < key best")
    case True
    then have res: "min_loop key best (x # xs) = min_loop key x xs" by simp
    have "key (min_loop key x xs) \<le> key x" by (rule min_loop_le_best)
    with True Cons.prems(3) res have "y \<noteq> best" by auto
    with Cons.prems(2) have "y \<in> set (x # xs)" by auto
    with Cons.IH [OF sx] Cons.prems(3) res show ?thesis by simp
  next
    case False
    then have res: "min_loop key best (x # xs) = min_loop key best xs" by simp
    show ?thesis
    proof (cases "y = x")
      case True
      from min_loop_best_or_less [of key best xs] have "min_loop key best xs = best"
      proof
        assume "key (min_loop key best xs) < key best"
        with Cons.prems(3) res True \<open>\<not> key x < key best\<close> show ?thesis by simp
      qed
      with bx True res show ?thesis by simp
    next
      case False
      with Cons.prems(2) have "y \<in> set (best # xs)" by auto
      with Cons.IH [OF sb] Cons.prems(3) res show ?thesis by simp
    qed
  qed
qed

text \<open>
  Claim C7. Whenever at least one session is registered, the index selected by
  \<^verbatim>\<open>min(work_loads, key=work_loads.get, default=0)\<close> is a registered session whose load
  counter is less than or equal to the counter of every registered session, and when the
  sessions were registered in ascending identifier order it is the lowest identifier among
  the sessions with that minimal counter.
\<close>

theorem select_index_least_loaded:
  assumes "work_loads \<noteq> []"
  shows "select_index work_loads \<in> set (dict_keys work_loads)
    \<and> (\<forall>k \<in> set (dict_keys work_loads).
          dict_get work_loads (select_index work_loads) \<le> dict_get work_loads k)
    \<and> (sorted_wrt (<) (dict_keys work_loads) \<longrightarrow>
         (\<forall>k \<in> set (dict_keys work_loads).
            dict_get work_loads k = dict_get work_loads (select_index work_loads)
            \<longrightarrow> select_index work_loads \<le> k))"
proof -
  from assms obtain p ps where wl: "work_loads = p # ps" by (cases work_loads) auto
  define ks where "ks = map fst ps"
  have keys: "dict_keys work_loads = fst p # ks" by (simp add: wl dict_keys_def ks_def)
  have sel: "select_index work_loads = min_loop (dict_get work_loads) (fst p) ks"
    by (simp add: select_index_def py_min_def keys)
  have a: "select_index work_loads \<in> set (dict_keys work_loads)"
    unfolding sel keys by (rule min_loop_mem)
  have b: "\<forall>k \<in> set (dict_keys work_loads).
      dict_get work_loads (select_index work_loads) \<le> dict_get work_loads k"
    unfolding sel keys by (blast intro: min_loop_le)
  have c: "sorted_wrt (<) (dict_keys work_loads) \<longrightarrow>
      (\<forall>k \<in> set (dict_keys work_loads).
         dict_get work_loads k = dict_get work_loads (select_index work_loads)
         \<longrightarrow> select_index work_loads \<le> k)"
    unfolding sel keys by (blast intro: min_loop_first)
  from a b c show ?thesis by blast
qed

theorem select_index_least_loaded_witness:
  "[(0::int, 2::int), (1, 1), (2, 1)] \<noteq> []
   \<and> select_index [(0::int, 2::int), (1, 1), (2, 1)] = 1
   \<and> sorted_wrt (<) (dict_keys [(0::int, 2::int), (1, 1), (2, 1)])
   \<and> dict_get [(0::int, 2::int), (1, 1), (2, 1)] (select_index [(0::int, 2::int), (1, 1), (2, 1)]) \<le> dict_get [(0::int, 2::int), (1, 1), (2, 1)] 0
   \<and> dict_get [(0::int, 2::int), (1, 1), (2, 1)] (select_index [(0::int, 2::int), (1, 1), (2, 1)]) \<le> dict_get [(0::int, 2::int), (1, 1), (2, 1)] 2
   \<and> dict_get [(0::int, 2::int), (1, 1), (2, 1)] 2 = dict_get [(0::int, 2::int), (1, 1), (2, 1)] (select_index [(0::int, 2::int), (1, 1), (2, 1)])
   \<and> select_index [(0::int, 2::int), (1, 1), (2, 1)] \<le> 2"
  using select_index_least_loaded [of "[(0::int, 2::int), (1, 1), (2, 1)]"]
  by (simp add: select_index_def py_min_def dict_keys_def dict_get_def)

section \<open>Runs of the generator\<close>

lemma and_then_Inr: "and_then r f = Inr y \<longleftrightarrow> (\<exists>x. r = Inr x \<and> f x = Inr y)"
  by (cases r) (simp_all add: and_then_def)

lemma and_then_Inl: "and_then r f = Inl e \<longleftrightarrow> r = Inl e \<or> (\<exists>x. r = Inr x \<and> f x = Inl e)"
  by (cases r) (simp_all add: and_then_def)

lemma dict_restore:
  assumes "dict_get d k = Some n"
  shows "dict_set (dict_set d k (n + 1)) k n = (d :: (int, int) dict)"
proof -
  have "AList.update k n (AList.update k (n + 1) d) = AList.update k n d"
    by simp
  also from assms have "AList.update k n d = d"
    by (simp add: dict_get_def update_triv)
  finally show ?thesis by (simp add: dict_set_def)
qed

lemma dict_get_set_same: "dict_get (dict_set d k v) k = Some v"
  by (simp add: dict_get_def dict_set_def update_conv')

lemma fetches_append: "fetches (xs @ ys) = fetches xs @ fetches ys"
  by (induction xs rule: fetches.induct) simp_all

lemma yields_append: "yields (xs @ ys) = yields xs @ yields ys"
  by (induction xs rule: yields.induct) simp_all

lemma stores_append: "stores (xs @ ys) = stores xs @ stores ys"
  by (induction xs rule: stores.induct) simp_all

text \<open>
  Once the loop is reached, the counter is back at its value from before the call, however
  the loop is left.
\<close>

lemma yield_file_restores:
  assumes "dict_get work_loads index = Some n" and "consumer \<noteq> Some 0"
  shows "loads (yield_file work_loads None send consumer file_id index offset
           first_part_cut last_part_cut part_count cs) = work_loads"
proof -
  obtain es out where loop:
    "yield_loop send consumer 1 offset first_part_cut last_part_cut part_count cs = (es, out)"
    by (cases "yield_loop send consumer 1 offset first_part_cut last_part_cut part_count cs")
  from assms loop show ?thesis
    by (simp add: yield_file_def Let_def dict_get_set_same dict_restore)
qed

text \<open>
  The events of such a run: the increment, the events of the loop, the decrement.
\<close>

lemma yield_file_events:
  assumes "dict_get work_loads index = Some n" and "consumer \<noteq> Some 0"
  shows "events (yield_file work_loads None send consumer file_id index offset
           first_part_cut last_part_cut part_count cs)
         = SetLoad index (n + 1)
           # fst (yield_loop send consumer 1 offset first_part_cut last_part_cut part_count cs)
           @ [SetLoad index n]"
    and "outcome (yield_file work_loads None send consumer file_id index offset
           first_part_cut last_part_cut part_count cs)
         = snd (yield_loop send consumer 1 offset first_part_cut last_part_cut part_count cs)"
  using assms
  by (simp_all add: yield_file_def Let_def dict_get_set_same split: prod.splits)

text \<open>
  When the loop is not reached (the generator never started, the index is not a key, the
  session set-up raised), no chunk was fetched and none was yielded.
\<close>

lemma yield_file_fetched_cases:
  "fetched (yield_file work_loads session_setup send consumer file_id index offset
      first_part_cut last_part_cut part_count cs) = []
   \<or> fetched (yield_file work_loads session_setup send consumer file_id index offset
      first_part_cut last_part_cut part_count cs)
     = fetches (fst (yield_loop send consumer 1 offset first_part_cut last_part_cut
         part_count cs))"
  by (simp add: yield_file_def fetched_def Let_def fetches_append
        split: option.splits prod.splits)

lemma yield_file_yielded_cases:
  "yielded (yield_file work_loads session_setup send consumer file_id index offset
      first_part_cut last_part_cut part_count cs) = []
   \<or> yielded (yield_file work_loads session_setup send consumer file_id index offset
      first_part_cut last_part_cut part_count cs)
     = yields (fst (yield_loop send consumer 1 offset first_part_cut last_part_cut
         part_count cs))"
  by (simp add: yield_file_def yielded_def Let_def yields_append
        split: option.splits prod.splits)

subsection \<open>The offsets of the fetches\<close>

lemma offsets_Cons:
  "off # map (\<lambda>k. off + cs + int k * cs) [0..<n] = map (\<lambda>k. off + int k * (cs::int)) [0..<Suc n]"
proof -
  have "map (\<lambda>k. off + int k * cs) [0..<Suc n]
      = (off + int 0 * cs) # map (\<lambda>i. off + int (Suc i) * cs) [0..<n]"
    by (rule map_upt_Suc)
  also have "\<dots> = off # map (\<lambda>k. off + cs + int k * cs) [0..<n]"
    by (simp add: algebra_simps)
  finally show ?thesis by simp
qed

lemma yield_loop_offsets:
  "\<exists>n. fetches (fst (yield_loop send consumer cp off fc lc pc cs))
          = map (\<lambda>k. off + int k * cs) [0..<n]
       \<and> int n \<le> max 0 (pc - cp + 1)"
proof (induction "nat (pc + 1 - cp)" arbitrary: cp off consumer)
  case 0
  then have "\<not> cp \<le> pc" by simp
  then have "yield_loop send consumer cp off fc lc pc cs = ([], Exhausted)"
    by (simp add: yield_loop.simps)
  then have "fetches (fst (yield_loop send consumer cp off fc lc pc cs))
        = map (\<lambda>k. off + int k * cs) [0..<0] \<and> int 0 \<le> max 0 (pc - cp + 1)"
    by simp
  then show ?case by blast
next
  case (Suc m)
  then have le: "cp \<le> pc" and m: "m = nat (pc + 1 - (cp + 1))" by simp_all
  have one: "\<exists>n. [off] = map (\<lambda>k. off + int k * cs) [0..<n] \<and> int n \<le> max 0 (pc - cp + 1)"
  proof (intro exI conjI)
    show "[off] = map (\<lambda>k. off + int k * cs) [0..<Suc 0]" by simp
    from le show "int (Suc 0) \<le> max 0 (pc - cp + 1)" by simp
  qed
  show ?case
  proof (cases "send (nat (cp - 1)) off cs")
    case NotFile
    with le have "fetches (fst (yield_loop send consumer cp off fc lc pc cs)) = [off]"
      by (simp add: yield_loop.simps)
    with one show ?thesis by simp
  next
    case (FetchRaises e)
    with le have "fetches (fst (yield_loop send consumer cp off fc lc pc cs)) = [off]"
      by (simp add: yield_loop.simps)
    with one show ?thesis by simp
  next
    case (File chunk)
    show ?thesis
    proof (cases "chunk = [] \<or> consumer = Some 1")
      case True
      with le File have "fetches (fst (yield_loop send consumer cp off fc lc pc cs)) = [off]"
        by (auto simp add: yield_loop.simps Let_def)
      with one show ?thesis by simp
    next
      case False
      from Suc.hyps(1) [OF m, of "map_option (\<lambda>n. n - 1) consumer" "off + cs"]
      obtain n where n: "fetches (fst (yield_loop send (map_option (\<lambda>n. n - 1) consumer) (cp + 1)
            (off + cs) fc lc pc cs)) = map (\<lambda>k. off + cs + int k * cs) [0..<n]"
        and bound: "int n \<le> max 0 (pc - (cp + 1) + 1)" by blast
      from le File False
      have "fetches (fst (yield_loop send consumer cp off fc lc pc cs))
          = off # fetches (fst (yield_loop send (map_option (\<lambda>n. n - 1) consumer) (cp + 1)
              (off + cs) fc lc pc cs))"
        by (subst yield_loop.simps) (simp add: Let_def split: prod.splits)
      with n have "fetches (fst (yield_loop send consumer cp off fc lc pc cs))
          = map (\<lambda>k. off + int k * cs) [0..<Suc n]"
        by (simp only: offsets_Cons)
      moreover from bound le have "int (Suc n) \<le> max 0 (pc - cp + 1)" by simp
      ultimately show ?thesis by blast
    qed
  qed
qed

lemma yield_file_offsets:
  "\<exists>n. fetched (yield_file work_loads session_setup send consumer file_id index offset
            first_part_cut last_part_cut part_count cs)
          = map (\<lambda>k. offset + int k * cs) [0..<n]
       \<and> int n \<le> max 0 part_count"
proof -
  let ?f = "fetched (yield_file work_loads session_setup send consumer file_id index offset
            first_part_cut last_part_cut part_count cs)"
  from yield_file_fetched_cases [of work_loads session_setup send consumer file_id index offset
      first_part_cut last_part_cut part_count cs]
  show ?thesis
  proof
    assume "?f = []"
    then have "?f = map (\<lambda>k. offset + int k * cs) [0..<0] \<and> int 0 \<le> max 0 part_count"
      by simp
    then show ?thesis by blast
  next
    assume loop: "?f = fetches (fst (yield_loop send consumer 1 offset first_part_cut
        last_part_cut part_count cs))"
    from yield_loop_offsets [of send consumer 1 offset first_part_cut last_part_cut part_count cs]
    obtain n where "fetches (fst (yield_loop send consumer 1 offset first_part_cut last_part_cut
        part_count cs)) = map (\<lambda>k. offset + int k * cs) [0..<n]"
      and "int n \<le> max 0 (part_count - 1 + 1)" by blast
    with loop have "?f = map (\<lambda>k. offset + int k * cs) [0..<n] \<and> int n \<le> max 0 part_count"
      by simp
    then show ?thesis by blast
  qed
qed

subsection \<open>An early end of the data\<close>

text \<open>The loop never assigns to \<^verbatim>\<open>work_loads\<close>.\<close>

lemma yield_loop_cases:
  "yield_loop send consumer cp off fc lc pc cs = ([], Exhausted)
   \<or> (\<exists>out. yield_loop send consumer cp off fc lc pc cs = ([GetFile off cs], out))
   \<or> (\<exists>piece. yield_loop send consumer cp off fc lc pc cs
         = ([GetFile off cs, Yield piece], Closed))
   \<or> (cp \<le> pc \<and> (\<exists>piece es out.
         yield_loop send (map_option (\<lambda>n. n - 1) consumer) (cp + 1) (off + cs) fc lc pc cs
           = (es, out)
         \<and> yield_loop send consumer cp off fc lc pc cs
           = (GetFile off cs # Yield piece # es, out)))"
proof (cases "cp \<le> pc")
  case False
  then show ?thesis by (simp add: yield_loop.simps)
next
  case le: True
  show ?thesis
  proof (cases "send (nat (cp - 1)) off cs")
    case NotFile
    with le show ?thesis by (simp add: yield_loop.simps)
  next
    case (FetchRaises e)
    with le show ?thesis by (simp add: yield_loop.simps)
  next
    case (File chunk)
    define piece where "piece =
      (if pc = 1 then py_slice chunk (Some fc) (Some lc)
       else if cp = 1 then py_slice chunk (Some fc) None
       else if cp = pc then py_slice chunk None (Some lc)
       else chunk)"
    obtain es out where rec:
      "yield_loop send (map_option (\<lambda>n. n - 1) consumer) (cp + 1) (off + cs) fc lc pc cs
         = (es, out)"
      by (cases "yield_loop send (map_option (\<lambda>n. n - 1) consumer) (cp + 1) (off + cs)
            fc lc pc cs")
    consider "chunk = []" | "chunk \<noteq> []" "consumer = Some 1"
      | "chunk \<noteq> []" "consumer \<noteq> Some 1" by blast
    then show ?thesis
    proof cases
      case 1
      with le File have "yield_loop send consumer cp off fc lc pc cs
          = ([GetFile off cs], Exhausted)"
        by (subst yield_loop.simps) simp
      then show ?thesis by blast
    next
      case 2
      with le File have "yield_loop send consumer cp off fc lc pc cs
          = ([GetFile off cs, Yield piece], Closed)"
        by (subst yield_loop.simps) (simp add: Let_def piece_def)
      then show ?thesis by blast
    next
      case 3
      with le File rec have "yield_loop send consumer cp off fc lc pc cs
          = (GetFile off cs # Yield piece # es, out)"
        by (subst yield_loop.simps) (simp add: Let_def piece_def)
      with le rec show ?thesis by blast
    qed
  qed
qed

lemma yield_loop_stores: "stores (fst (yield_loop send consumer cp off fc lc pc cs)) = []"
proof (induction "nat (pc + 1 - cp)" arbitrary: cp off consumer)
  case 0
  then have "\<not> cp \<le> pc" by simp
  then show ?case by (simp add: yield_loop.simps)
next
  case (Suc m)
  then have m: "m = nat (pc + 1 - (cp + 1))" by simp
  from Suc.hyps(1) [OF m, of "map_option (\<lambda>n. n - 1) consumer" "off + cs"]
  have rec: "stores (fst (yield_loop send (map_option (\<lambda>n. n - 1) consumer) (cp + 1)
      (off + cs) fc lc pc cs)) = []" .
  from yield_loop_cases [of send consumer cp off fc lc pc cs] rec show ?case
    by auto
qed

lemma yield_loop_early_end:
  assumes "1 \<le> cp" and "cp + int j \<le> pc"
    and "\<forall>i<j. \<exists>c. send (nat (cp - 1) + i) (off + int i * cs) cs = File c \<and> c \<noteq> []"
    and "send (nat (cp - 1) + j) (off + int j * cs) cs = NotFile
         \<or> send (nat (cp - 1) + j) (off + int j * cs) cs = File []"
    and "case consumer of None \<Rightarrow> True | Some m \<Rightarrow> j < m"
  shows "\<exists>es. yield_loop send consumer cp off fc lc pc cs
            = (es @ [GetFile (off + int j * cs) cs], Exhausted)
          \<and> fetches es = map (\<lambda>i. off + int i * cs) [0..<j]
          \<and> length (yields es) = j"
  using assms
proof (induction j arbitrary: cp off consumer)
  case 0
  then have le: "cp \<le> pc" by simp
  from "0.prems"(4) have "send (nat (cp - 1)) off cs = NotFile \<or> send (nat (cp - 1)) off cs = File []"
    by simp
  with le have "yield_loop send consumer cp off fc lc pc cs = ([GetFile off cs], Exhausted)"
    by (auto simp add: yield_loop.simps)
  then have "yield_loop send consumer cp off fc lc pc cs
        = ([] @ [GetFile (off + int 0 * cs) cs], Exhausted)
      \<and> fetches [] = map (\<lambda>i. off + int i * cs) [0..<0] \<and> length (yields []) = 0"
    by simp
  then show ?case by blast
next
  case (Suc j)
  from Suc.prems(2) have le: "cp \<le> pc" by simp
  from Suc.prems(3) have "\<exists>c. send (nat (cp - 1) + 0) (off + int 0 * cs) cs = File c \<and> c \<noteq> []"
    by blast
  then obtain c where c: "send (nat (cp - 1)) off cs = File c" and ne: "c \<noteq> []" by auto
  from Suc.prems(5) have open_: "consumer \<noteq> Some 1"
    by (auto split: option.splits)
  have shift: "nat (cp + 1 - 1) + i = nat (cp - 1) + Suc i" for i
    using Suc.prems(1) by simp
  have off: "off + cs + int i * cs = off + int (Suc i) * cs" for i
    by (simp add: algebra_simps)
  have p1: "1 \<le> cp + 1" using Suc.prems(1) by simp
  have p2: "cp + 1 + int j \<le> pc" using Suc.prems(2) by simp
  have p3: "\<forall>i<j. \<exists>c. send (nat (cp + 1 - 1) + i) (off + cs + int i * cs) cs = File c \<and> c \<noteq> []"
    using Suc.prems(3) unfolding shift off by (metis Suc_less_eq)
  have p4: "send (nat (cp + 1 - 1) + j) (off + cs + int j * cs) cs = NotFile
      \<or> send (nat (cp + 1 - 1) + j) (off + cs + int j * cs) cs = File []"
    using Suc.prems(4) unfolding shift off .
  have p5: "case map_option (\<lambda>n. n - 1) consumer of None \<Rightarrow> True | Some m \<Rightarrow> j < m"
    using Suc.prems(5) by (auto split: option.splits)
  from Suc.IH [OF p1 p2 p3 p4 p5]
  obtain es where rec: "yield_loop send (map_option (\<lambda>n. n - 1) consumer) (cp + 1) (off + cs)
        fc lc pc cs = (es @ [GetFile (off + cs + int j * cs) cs], Exhausted)"
    and fs: "fetches es = map (\<lambda>i. off + cs + int i * cs) [0..<j]"
    and len: "length (yields es) = j" by blast
  define piece where "piece =
    (if pc = 1 then py_slice c (Some fc) (Some lc)
     else if cp = 1 then py_slice c (Some fc) None
     else if cp = pc then py_slice c None (Some lc)
     else c)"
  from le c ne open_ rec
  have "yield_loop send consumer cp off fc lc pc cs
      = (GetFile off cs # Yield piece # es @ [GetFile (off + cs + int j * cs) cs], Exhausted)"
    by (subst yield_loop.simps) (simp add: Let_def piece_def)
  then have loop: "yield_loop send consumer cp off fc lc pc cs
      = ((GetFile off cs # Yield piece # es) @ [GetFile (off + int (Suc j) * cs) cs], Exhausted)"
    by (simp only: off append_Cons)
  from fs have "fetches (GetFile off cs # Yield piece # es)
      = off # map (\<lambda>i. off + cs + int i * cs) [0..<j]" by simp
  then have fs': "fetches (GetFile off cs # Yield piece # es)
      = map (\<lambda>i. off + int i * cs) [0..<Suc j]"
    by (simp only: offsets_Cons)
  from len have len': "length (yields (GetFile off cs # Yield piece # es)) = Suc j" by simp
  from loop fs' len' show ?case by blast
qed

text \<open>
  Claim C9. Suppose the generator runs with a registered index whose counter is \<open>n\<close> and a
  session set-up that completes, its first \<open>j\<close> fetches return non-empty \<^verbatim>\<open>upload.File\<close>
  chunks, \<open>j\<close> is below \<^verbatim>\<open>part_count\<close>, the consumer is still iterating, and the next fetch
  returns a value that is not an \<^verbatim>\<open>upload.File\<close> or returns empty bytes. Then the sequence
  ends as exhausted (no exception reaches the consumer) after the \<open>j\<close> chunks, and that fetch
  is the last one issued. The events of the run are: the assignment of \<open>n + 1\<close> to
  \<^verbatim>\<open>work_loads[index]\<close>, then the \<open>j\<close> fetches and chunks without any assignment to
  \<^verbatim>\<open>work_loads\<close>, then the fetch that ends the data, then the assignment of \<open>n\<close> to
  \<^verbatim>\<open>work_loads[index]\<close> and nothing after it. So the counter is \<open>n + 1\<close> during every fetch, it
  is decremented exactly once, after the last fetch, and \<^verbatim>\<open>work_loads\<close> ends as it was
  before the call.
\<close>

theorem early_end_of_data_is_silent:
  assumes "dict_get work_loads index = Some n"
    and "int j < part_count"
    and "\<forall>i<j. \<exists>c. send i (offset + int i * cs) cs = File c \<and> c \<noteq> []"
    and "send j (offset + int j * cs) cs = NotFile \<or> send j (offset + int j * cs) cs = File []"
    and "case consumer of None \<Rightarrow> True | Some m \<Rightarrow> j < m"
  shows "outcome (yield_file work_loads None send consumer file_id index offset
            first_part_cut last_part_cut part_count cs) = Exhausted
    \<and> fetched (yield_file work_loads None send consumer file_id index offset
            first_part_cut last_part_cut part_count cs)
        = map (\<lambda>i. offset + int i * cs) [0..<Suc j]
    \<and> length (yielded (yield_file work_loads None send consumer file_id index offset
            first_part_cut last_part_cut part_count cs)) = j
    \<and> (\<exists>es. events (yield_file work_loads None send consumer file_id index offset
                first_part_cut last_part_cut part_count cs)
              = SetLoad index (n + 1) # es
                @ [GetFile (offset + int j * cs) cs, SetLoad index n]
            \<and> stores es = []
            \<and> fetches es = map (\<lambda>i. offset + int i * cs) [0..<j]
            \<and> length (yields es) = j)
    \<and> stores (events (yield_file work_loads None send consumer file_id index offset
            first_part_cut last_part_cut part_count cs))
        = [(index, n + 1), (index, n)]
    \<and> loads (yield_file work_loads None send consumer file_id index offset
            first_part_cut last_part_cut part_count cs) = work_loads
    \<and> dict_get (loads (yield_file work_loads None send consumer file_id index offset
            first_part_cut last_part_cut part_count cs)) index = Some n"
proof -
  let ?r = "yield_file work_loads None send consumer file_id index offset
      first_part_cut last_part_cut part_count cs"
  from assms(5) have started: "consumer \<noteq> Some 0" by (auto split: option.splits)
  have a1: "(1::int) \<le> 1" by simp
  from assms(2) have a2: "1 + int j \<le> part_count" by simp
  from assms(3) have a3:
    "\<forall>i<j. \<exists>c. send (nat (1 - 1) + i) (offset + int i * cs) cs = File c \<and> c \<noteq> []" by simp
  from assms(4) have a4: "send (nat (1 - 1) + j) (offset + int j * cs) cs = NotFile
      \<or> send (nat (1 - 1) + j) (offset + int j * cs) cs = File []" by simp
  from yield_loop_early_end [where cp = 1 and j = j and pc = part_count and send = send
      and off = offset and cs = cs and consumer = consumer and fc = first_part_cut
      and lc = last_part_cut, OF a1 a2 a3 a4 assms(5)]
  obtain es where loop: "yield_loop send consumer 1 offset first_part_cut last_part_cut
        part_count cs = (es @ [GetFile (offset + int j * cs) cs], Exhausted)"
    and fs: "fetches es = map (\<lambda>i. offset + int i * cs) [0..<j]"
    and len: "length (yields es) = j" by blast
  from yield_loop_stores [of send consumer 1 offset first_part_cut last_part_cut part_count cs]
  have st: "stores es = []" by (simp add: loop stores_append)
  have ev: "events ?r = SetLoad index (n + 1) # es
      @ [GetFile (offset + int j * cs) cs, SetLoad index n]"
    by (simp add: yield_file_events(1) [OF assms(1) started] loop)
  have out: "outcome ?r = Exhausted"
    by (simp add: yield_file_events(2) [OF assms(1) started] loop)
  have f: "fetched ?r = map (\<lambda>i. offset + int i * cs) [0..<Suc j]"
    by (simp add: fetched_def ev fetches_append fs)
  have y: "length (yielded ?r) = j"
    by (simp add: yielded_def ev yields_append len)
  have s: "stores (events ?r) = [(index, n + 1), (index, n)]"
    by (simp add: ev stores_append st)
  have l: "loads ?r = work_loads"
    by (rule yield_file_restores [OF assms(1) started])
  have g: "dict_get (loads ?r) index = Some n"
    by (simp only: l assms(1))
  from ev st fs len have e: "\<exists>es. events ?r = SetLoad index (n + 1) # es
        @ [GetFile (offset + int j * cs) cs, SetLoad index n]
      \<and> stores es = [] \<and> fetches es = map (\<lambda>i. offset + int i * cs) [0..<j]
      \<and> length (yields es) = j" by blast
  from out f y e s l g show ?thesis by (intro conjI)
qed

theorem early_end_of_data_is_silent_witness:
  "outcome (yield_file [(0, 0)] None (\<lambda>k off lim. if k = 0 then File [1, 2, 3, 4] else File [])
      None \<lparr>dc_id = 2, media_id = 1, access_hash = 0\<rparr> 0 0 1 3 3 4) = Exhausted
   \<and> fetched (yield_file [(0, 0)] None (\<lambda>k off lim. if k = 0 then File [1, 2, 3, 4] else File [])
      None \<lparr>dc_id = 2, media_id = 1, access_hash = 0\<rparr> 0 0 1 3 3 4) = [0, 4]
   \<and> length (yielded (yield_file [(0, 0)] None
      (\<lambda>k off lim. if k = 0 then File [1, 2, 3, 4] else File [])
      None \<lparr>dc_id = 2, media_id = 1, access_hash = 0\<rparr> 0 0 1 3 3 4)) = 1
   \<and> events (yield_file [(0, 0)] None (\<lambda>k off lim. if k = 0 then File [1, 2, 3, 4] else File [])
      None \<lparr>dc_id = 2, media_id = 1, access_hash = 0\<rparr> 0 0 1 3 3 4)
     = [SetLoad 0 1, GetFile 0 4, Yield [2, 3, 4], GetFile 4 4, SetLoad 0 0]
   \<and> stores (events (yield_file [(0, 0)] None
      (\<lambda>k off lim. if k = 0 then File [1, 2, 3, 4] else File [])
      None \<lparr>dc_id = 2, media_id = 1, access_hash = 0\<rparr> 0 0 1 3 3 4)) = [(0, 1), (0, 0)]
   \<and> loads (yield_file [(0, 0)] None (\<lambda>k off lim. if k = 0 then File [1, 2, 3, 4] else File [])
      None \<lparr>dc_id = 2, media_id = 1, access_hash = 0\<rparr> 0 0 1 3 3 4) = [(0, 0)]"
proof -
  have h1: "dict_get [(0::int, 0::int)] 0 = Some 0" by (simp add: dict_get_def)
  have h2: "int 1 < 3" by simp
  have h3: "\<forall>i<1. \<exists>c. (\<lambda>k off lim. if k = 0 then File [1, 2, 3, 4] else File []) i
      (0 + int i * 4) (4::int) = File c \<and> c \<noteq> []" by simp
  have h4: "(\<lambda>k off lim. if k = 0 then File [1, 2, 3, 4] else File []) (1::nat)
        (0 + int 1 * 4) (4::int) = NotFile
      \<or> (\<lambda>k off lim. if k = 0 then File [1, 2, 3, 4] else File []) (1::nat)
        (0 + int 1 * 4) (4::int) = File []" by simp
  have h5: "case None :: nat option of None \<Rightarrow> True | Some m \<Rightarrow> 1 < m" by simp
  have ev: "events (yield_file [(0, 0)] None
      (\<lambda>k off lim. if k = 0 then File [1, 2, 3, 4] else File [])
      None \<lparr>dc_id = 2, media_id = 1, access_hash = 0\<rparr> 0 0 1 3 3 4)
     = [SetLoad 0 1, GetFile 0 4, Yield [2, 3, 4], GetFile 4 4, SetLoad 0 0]"
    by code_simp
  from early_end_of_data_is_silent [where work_loads = "[(0, 0)]" and index = 0 and n = 0
      and j = 1 and part_count = 3 and offset = 0 and cs = 4 and consumer = None
      and send = "\<lambda>k off lim. if k = 0 then File [1, 2, 3, 4] else File []"
      and file_id = "\<lparr>dc_id = 2, media_id = 1, access_hash = 0\<rparr>"
      and first_part_cut = 1 and last_part_cut = 3, OF h1 h2 h3 h4 h5] ev
  show ?thesis by (simp add: upt_rec)
qed

subsection \<open>The load counter when the session set-up raises\<close>

text \<open>
  Claim C4 says that the increment of \<^verbatim>\<open>work_loads[index]\<close> is undone on every exit path of
  the generator. The increment stands before the \<^verbatim>\<open>try\<close>, and so do the awaits that look up
  or create the media session: when one of them raises (here an \<^verbatim>\<open>AttributeError\<close>) the
  \<^verbatim>\<open>finally\<close> was never entered. With one idle session, whatever the backend and the plan,
  the run ends with the exception, without a fetch, and the counter stays at 1.
\<close>

theorem setup_failure_leaks_counter:
  "outcome (yield_file [(0, 0)] (Some AttributeError) send None file_id 0 offset
      first_part_cut last_part_cut part_count cs) = Raised AttributeError
   \<and> fetched (yield_file [(0, 0)] (Some AttributeError) send None file_id 0 offset
      first_part_cut last_part_cut part_count cs) = []
   \<and> loads (yield_file [(0, 0)] (Some AttributeError) send None file_id 0 offset
      first_part_cut last_part_cut part_count cs) = [(0, 1)]"
  by (simp add: yield_file_def fetched_def dict_get_def dict_set_def)

section \<open>Plans computed by the handlers\<close>

lemma py_truediv_no_http: "py_truediv a b \<noteq> Inl (HTTPException s)"
  by (simp add: py_truediv_def Let_def)

lemma range_plan_Inr:
  assumes "range_plan file_size from_bytes until_bytes = Inr p"
  shows "0 \<le> from_bytes" and "until_bytes < file_size"
    and "plan_offset p = from_bytes - from_bytes mod chunk_size"
    and "plan_first_part_cut p = from_bytes mod chunk_size"
    and "plan_last_part_cut p = until_bytes mod chunk_size + 1"
    and "plan_req_length p = until_bytes - from_bytes + 1"
  using assms
  by (auto simp add: range_plan_def Let_def and_then_Inr split: if_splits)

lemma range_plan_app_eq: "range_plan_app fsize fb ub = range_plan fsize fb ub"
proof -
  have "fb div (1024 * 1024) * (1024 * 1024) = fb - fb mod (1024 * 1024)"
    by (simp add: minus_mod_eq_div_mult)
  then show ?thesis
    by (simp add: range_plan_app_def range_plan_def chunk_size_def Let_def)
qed

lemma find_media_app_eq: "find_media_app msg = find_media msg"
  by (simp add: find_media_app_def find_media_def split: option.splits)

lemma requested_range_app_eq:
  "truthy rh \<Longrightarrow> requested_range_app rh fsize = requested_range rh fsize"
  by (simp add: requested_range_app_def requested_range_def truthy_def split: option.splits)

text \<open>Without a \<^verbatim>\<open>Range\<close> header \<^verbatim>\<open>stream_media\<close> builds no response.\<close>

lemma stream_media_try_no_range:
  "stream_media_try c decode i None mid \<noteq> Inr resp"
  "stream_media_try c decode i (Some []) mid \<noteq> Inr resp"
  by (simp_all add: stream_media_try_def and_then_Inr requested_range_app_def Let_def)

subsection \<open>Fetch offsets\<close>

lemma offsets_nonneg_dvd:
  assumes "0 \<le> from_bytes"
  shows "\<forall>x \<in> set (map (\<lambda>k. from_bytes div chunk_size * chunk_size + int k * chunk_size) [0..<n]).
           0 \<le> x \<and> chunk_size dvd x"
proof -
  have pos: "0 < chunk_size" by (simp add: chunk_size_def)
  from assms pos have "0 \<le> from_bytes div chunk_size" by (simp add: pos_imp_zdiv_nonneg_iff)
  with pos have "0 \<le> from_bytes div chunk_size * chunk_size + int k * chunk_size" for k
    by simp
  then show ?thesis by auto
qed

lemma offsets_increasing:
  "sorted_wrt (<) (map (\<lambda>k. off + int k * chunk_size) [0..<n])"
proof -
  have pos: "0 < chunk_size" by (simp add: chunk_size_def)
  have "sorted_wrt (\<lambda>i j. off + int i * chunk_size < off + int j * chunk_size) [0..<n]"
    by (rule sorted_wrt_mono_rel [of _ "(<)"]) (use pos in simp_all)
  then show ?thesis by (simp add: sorted_wrt_map)
qed

text \<open>
  The plan in the body of a response is the plan of the first and last byte that the handler
  read from the request.
\<close>

lemma handler_body_of_request:
  assumes "stream_handler work_loads multi_clients decode range_header msg_id = Inr resp
      \<or> stream_media work_loads multi_clients decode range_header msg_id = Inr resp"
    and "dict_get multi_clients (select_index work_loads) = Some cl"
    and "get_messages cl msg_id = Inr msg"
    and "find_media msg = Inr m"
    and "requested_range range_header (media_file_size m) = Inr (from_bytes, until_bytes)"
  shows "\<exists>file_id p. range_plan (media_file_size m) from_bytes until_bytes = Inr p
      \<and> body resp = plan_body file_id (select_index work_loads) p"
  using assms(1)
proof
  assume "stream_handler work_loads multi_clients decode range_header msg_id = Inr resp"
  with assms(2) have "stream_handler_try cl decode (select_index work_loads) range_header msg_id
      = Inr resp"
    by (auto simp add: stream_handler_def Let_def split: sum.splits exn.splits)
  with assms(3-5) show ?thesis
    by (auto simp add: stream_handler_try_def and_then_Inr Let_def)
next
  assume "stream_media work_loads multi_clients decode range_header msg_id = Inr resp"
  with assms(2) have t: "stream_media_try cl decode (select_index work_loads) range_header msg_id
      = Inr resp"
    by (auto simp add: stream_media_def Let_def split: sum.splits exn.splits)
  then have "truthy range_header"
    using stream_media_try_no_range [of cl decode "select_index work_loads" msg_id resp]
    by (cases range_header) (auto simp add: truthy_def)
  from requested_range_app_eq [OF this, of "media_file_size m"] assms(3-5) t show ?thesis
    by (auto simp add: stream_media_try_def and_then_Inr Let_def find_media_app_eq
          range_plan_app_eq)
qed

text \<open>
  Claim C10. In every run of \<^verbatim>\<open>yield_file\<close> the \<open>k\<close>-th \<^verbatim>\<open>GetFile\<close> call is issued at
  \<open>offset + (k - 1) * chunk_size\<close>, and no more than \<^verbatim>\<open>part_count\<close> calls are issued (none
  at all when \<^verbatim>\<open>part_count\<close> is not positive). When the run is the body of a response of
  either handler, and \<open>from_bytes\<close> is the first byte that the handler read from the request
  (the header of the request, parsed against the size of the media that the selected
  session found in the message), then \<open>from_bytes\<close> is not negative, the offset of the plan is
  \<open>floor(from_bytes / chunk_size) * chunk_size\<close>, the \<open>k\<close>-th fetch is issued at that offset plus
  \<open>(k - 1) * chunk_size\<close>, every fetch offset is a non-negative multiple of the chunk size,
  and the offsets are strictly increasing.
\<close>

theorem fetch_offsets_follow_plan:
  assumes "stream_handler work_loads multi_clients decode range_header msg_id = Inr resp
      \<or> stream_media work_loads multi_clients decode range_header msg_id = Inr resp"
    and "dict_get multi_clients (select_index work_loads) = Some cl"
    and "get_messages cl msg_id = Inr msg"
    and "find_media msg = Inr m"
    and "requested_range range_header (media_file_size m) = Inr (from_bytes, until_bytes)"
  shows "(\<exists>n. fetched (yield_file wl session_setup send consumer file_id index offset
                first_part_cut last_part_cut part_count cs)
              = map (\<lambda>k. offset + int k * cs) [0..<n]
            \<and> int n \<le> max 0 part_count)
    \<and> 0 \<le> from_bytes
    \<and> body_offset (body resp) = from_bytes div chunk_size * chunk_size
    \<and> body_chunk_size (body resp) = chunk_size
    \<and> (\<exists>n. fetched (run_body wl session_setup send consumer (body resp))
              = map (\<lambda>k. from_bytes div chunk_size * chunk_size + int k * chunk_size) [0..<n]
            \<and> int n \<le> max 0 (body_part_count (body resp)))
    \<and> (\<forall>x \<in> set (fetched (run_body wl session_setup send consumer (body resp))).
          0 \<le> x \<and> chunk_size dvd x)
    \<and> sorted_wrt (<) (fetched (run_body wl session_setup send consumer (body resp)))"
proof -
  have general: "\<exists>n. fetched (yield_file wl session_setup send consumer file_id index offset
                first_part_cut last_part_cut part_count cs)
              = map (\<lambda>k. offset + int k * cs) [0..<n]
            \<and> int n \<le> max 0 part_count"
    by (rule yield_file_offsets)
  from handler_body_of_request [OF assms]
  obtain fid p
    where p: "range_plan (media_file_size m) from_bytes until_bytes = Inr p"
      and b: "body resp = plan_body fid (select_index work_loads) p" by blast
  from range_plan_Inr(1) [OF p] have nonneg: "0 \<le> from_bytes" .
  from range_plan_Inr(3) [OF p] have "plan_offset p = from_bytes div chunk_size * chunk_size"
    by (simp add: minus_mod_eq_div_mult)
  with b have off: "body_offset (body resp) = from_bytes div chunk_size * chunk_size"
    by (simp add: plan_body_def)
  from b have cs: "body_chunk_size (body resp) = chunk_size" by (simp add: plan_body_def)
  let ?f = "fetched (run_body wl session_setup send consumer (body resp))"
  from yield_file_offsets [of wl session_setup send consumer "body_file_id (body resp)"
      "body_index (body resp)" "body_offset (body resp)" "body_first_part_cut (body resp)"
      "body_last_part_cut (body resp)" "body_part_count (body resp)" "body_chunk_size (body resp)"]
  obtain n where f: "?f = map (\<lambda>k. from_bytes div chunk_size * chunk_size + int k * chunk_size)
        [0..<n]"
    and n: "int n \<le> max 0 (body_part_count (body resp))"
    unfolding run_body_def cs off by blast
  have dvd: "\<forall>x \<in> set ?f. 0 \<le> x \<and> chunk_size dvd x"
    unfolding f by (rule offsets_nonneg_dvd [OF nonneg])
  have incr: "sorted_wrt (<) ?f"
    unfolding f by (rule offsets_increasing)
  from f n have run: "\<exists>n. ?f = map (\<lambda>k. from_bytes div chunk_size * chunk_size
        + int k * chunk_size) [0..<n] \<and> int n \<le> max 0 (body_part_count (body resp))"
    by blast
  from general nonneg off cs run dvd incr show ?thesis by (intro conjI)
qed

theorem fetch_offsets_follow_plan_witness:
  "\<exists>resp. stream_handler example_loads (example_clients 3145728) example_decode
        (Some ''bytes=1500000-3145727'') 7 = Inr resp
     \<and> requested_range (Some ''bytes=1500000-3145727'') 3145728 = Inr (1500000, 3145727)
     \<and> body_offset (body resp) = 1048576
     \<and> body_part_count (body resp) = 2
     \<and> fetched (run_body example_loads None (\<lambda>k off lim. File [7]) None (body resp))
         = [1048576, 2097152]
     \<and> sorted_wrt (<) (fetched (run_body example_loads None (\<lambda>k off lim. File [7]) None
          (body resp)))"
proof -
  define resp where "resp =
    \<lparr>status_code = 206,
     headers =
       [(''Content-Type'', ''video/mp4''),
        (''Content-Range'', ''bytes 1500000-3145727/3145728''),
        (''Content-Length'', ''1645728''),
        (''Accept-Ranges'', ''bytes''),
        (''Content-Disposition'', ''inline; filename='' @ [CHR 0x22] @ ''clip.mp4'' @ [CHR 0x22])],
     body =
       \<lparr>body_file_id = \<lparr>dc_id = 2, media_id = 1, access_hash = 0\<rparr>, body_index = 0,
        body_offset = 1048576, body_first_part_cut = 451424, body_last_part_cut = 1048576,
        body_part_count = 2, body_chunk_size = 1048576\<rparr>\<rparr>"
  have h: "stream_handler example_loads (example_clients 3145728) example_decode
        (Some ''bytes=1500000-3145727'') 7 = Inr resp"
    unfolding resp_def by code_simp
  have h2: "dict_get (example_clients 3145728) (select_index example_loads)
      = Some (example_client 3145728)"
    by (simp add: example_clients_def example_loads_def select_index_def py_min_def
          dict_keys_def dict_get_def)
  have h3: "get_messages (example_client 3145728) 7 = Inr (example_message 3145728)"
    by (simp add: example_client_def)
  have h4: "find_media (example_message 3145728) = Inr (example_media 3145728)"
    by (simp add: find_media_def example_message_def)
  have size: "media_file_size (example_media 3145728) = 3145728"
    by (simp add: example_media_def)
  have r: "requested_range (Some ''bytes=1500000-3145727'') 3145728 = Inr (1500000, 3145727)"
    by code_simp
  then have h5: "requested_range (Some ''bytes=1500000-3145727'')
      (media_file_size (example_media 3145728)) = Inr (1500000, 3145727)"
    by (simp only: size)
  have f: "fetched (run_body example_loads None (\<lambda>k off lim. File [7]) None (body resp))
      = [1048576, 2097152]"
    unfolding resp_def by code_simp
  from fetch_offsets_follow_plan [OF disjI1 [OF h] h2 h3 h4 h5, of example_loads None
      "\<lambda>k off lim. File [7]" None]
  have "body_offset (body resp) = 1500000 div chunk_size * chunk_size"
    and "sorted_wrt (<) (fetched (run_body example_loads None (\<lambda>k off lim. File [7]) None
      (body resp)))"
    by blast+
  then have "body_offset (body resp) = 1048576"
    and "sorted_wrt (<) (fetched (run_body example_loads None (\<lambda>k off lim. File [7]) None
      (body resp)))"
    by (simp_all add: chunk_size_def)
  with h r f show ?thesis by (auto simp add: resp_def)
qed

section \<open>Ranges that do not start on a chunk boundary\<close>

text \<open>
  \<^verbatim>\<open>part_count\<close> is the ceiling of \<^verbatim>\<open>req_length / chunk_size\<close>: the number of chunks that hold
  as many bytes as the range, not the number of chunks the range touches. A range that
  starts inside a chunk can touch one chunk more. The smallest case is a range shorter than
  a chunk that crosses a boundary: the plan has one part, and its cuts are crossed.
\<close>

lemma py_slice_crossed:
  assumes "0 \<le> stop" and "stop \<le> start"
  shows "py_slice xs (Some start) (Some stop) = []"
  using assms by (simp add: py_slice_def slice_index_def Let_def)

lemma yield_loop_one_part_crossed:
  assumes "0 \<le> lc" and "lc \<le> fc"
  shows "sum_list (map length (yields (fst (yield_loop send consumer 1 off fc lc 1 cs)))) = 0"
proof -
  have stop: "yield_loop send c 2 o2 fc lc 1 cs = ([], Exhausted)" for c o2
    by (simp add: yield_loop.simps)
  show ?thesis
    by (subst yield_loop.simps)
      (simp add: Let_def stop py_slice_crossed [OF assms] split: fetch_result.splits)
qed

lemma one_part_crossed_streams_nothing:
  assumes "0 \<le> lc" and "lc \<le> fc"
  shows "total_bytes (yield_file wl session_setup send consumer file_id index off fc lc 1 cs) = 0"
  using yield_file_yielded_cases [of wl session_setup send consumer file_id index off fc lc 1 cs]
    yield_loop_one_part_crossed [OF assms, of send consumer off cs]
  by (auto simp add: total_bytes_def)

text \<open>
  Claim C3 gives, for a file of three chunks of 1,048,576 bytes and the header
  \<^verbatim>\<open>bytes=500000-1500000\<close>, the plan offset 0, first cut 500000, last cut 451425 and two
  parts, and a stream of 1,000,001 bytes. Both handlers compute the offset and the cuts so,
  but \<^verbatim>\<open>part_count\<close> is \<open>ceil(1000001 / 1048576) = 1\<close>: the one chunk fetched is sliced
  \<^verbatim>\<open>[500000:451425]\<close>, which is empty. Whatever the backend returns and however the consumer
  iterates, the body delivers no byte, under a \<^verbatim>\<open>Content-Length\<close> of 1000001.
\<close>

theorem partial_range_example_streams_nothing:
  "(\<exists>resp. stream_handler example_loads (example_clients 3145728) example_decode
          (Some ''bytes=500000-1500000'') 7 = Inr resp
      \<and> status_code resp = 206
      \<and> body_offset (body resp) = 0
      \<and> body_first_part_cut (body resp) = 500000
      \<and> body_last_part_cut (body resp) = 451425
      \<and> body_part_count (body resp) = 1
      \<and> dict_get (headers resp) ''Content-Length'' = Some ''1000001''
      \<and> (\<forall>session_setup send consumer.
            total_bytes (run_body example_loads session_setup send consumer (body resp)) = 0))
   \<and> (\<exists>resp. stream_media example_loads (example_clients 3145728) example_decode
          (Some ''bytes=500000-1500000'') 7 = Inr resp
      \<and> status_code resp = 206
      \<and> body_offset (body resp) = 0
      \<and> body_first_part_cut (body resp) = 500000
      \<and> body_last_part_cut (body resp) = 451425
      \<and> body_part_count (body resp) = 1
      \<and> dict_get (headers resp) ''Content-Length'' = Some ''1000001''
      \<and> (\<forall>session_setup send consumer.
            total_bytes (run_body example_loads session_setup send consumer (body resp)) = 0))"
proof -
  define web where "web =
    \<lparr>status_code = 206,
     headers =
       [(''Content-Type'', ''video/mp4''),
        (''Content-Range'', ''bytes 500000-1500000/3145728''),
        (''Content-Length'', ''1000001''),
        (''Accept-Ranges'', ''bytes''),
        (''Content-Disposition'', ''inline; filename='' @ [CHR 0x22] @ ''clip.mp4'' @ [CHR 0x22])],
     body =
       \<lparr>body_file_id = \<lparr>dc_id = 2, media_id = 1, access_hash = 0\<rparr>, body_index = 0,
        body_offset = 0, body_first_part_cut = 500000, body_last_part_cut = 451425,
        body_part_count = 1, body_chunk_size = 1048576\<rparr>\<rparr>"
  define app where "app =
    \<lparr>status_code = 206,
     headers =
       [(''Content-Type'', ''video/mp4''),
        (''Accept-Ranges'', ''bytes''),
        (''Content-Disposition'', ''inline; filename='' @ [CHR 0x22] @ ''clip.mp4'' @ [CHR 0x22]),
        (''Content-Length'', ''1000001''),
        (''Content-Range'', ''bytes 500000-1500000/3145728'')],
     body =
       \<lparr>body_file_id = \<lparr>dc_id = 2, media_id = 1, access_hash = 0\<rparr>, body_index = 0,
        body_offset = 0, body_first_part_cut = 500000, body_last_part_cut = 451425,
        body_part_count = 1, body_chunk_size = 1048576\<rparr>\<rparr>"
  have hw: "stream_handler example_loads (example_clients 3145728) example_decode
      (Some ''bytes=500000-1500000'') 7 = Inr web"
    unfolding web_def by code_simp
  have ha: "stream_media example_loads (example_clients 3145728) example_decode
      (Some ''bytes=500000-1500000'') 7 = Inr app"
    unfolding app_def by code_simp
  have nw: "total_bytes (run_body example_loads session_setup send consumer (body web)) = 0"
    for session_setup send consumer
    unfolding web_def by (simp add: run_body_def one_part_crossed_streams_nothing)
  have na: "total_bytes (run_body example_loads session_setup send consumer (body app)) = 0"
    for session_setup send consumer
    unfolding app_def by (simp add: run_body_def one_part_crossed_streams_nothing)
  have pw: "status_code web = 206
      \<and> body_offset (body web) = 0
      \<and> body_first_part_cut (body web) = 500000
      \<and> body_last_part_cut (body web) = 451425
      \<and> body_part_count (body web) = 1
      \<and> dict_get (headers web) ''Content-Length'' = Some ''1000001''
      \<and> (\<forall>session_setup send consumer.
            total_bytes (run_body example_loads session_setup send consumer (body web)) = 0)"
    using nw by (simp add: web_def dict_get_def)
  have pa: "status_code app = 206
      \<and> body_offset (body app) = 0
      \<and> body_first_part_cut (body app) = 500000
      \<and> body_last_part_cut (body app) = 451425
      \<and> body_part_count (body app) = 1
      \<and> dict_get (headers app) ''Content-Length'' = Some ''1000001''
      \<and> (\<forall>session_setup send consumer.
            total_bytes (run_body example_loads session_setup send consumer (body app)) = 0)"
    using na by (simp add: app_def dict_get_def)
  from hw pw ha pa show ?thesis by blast
qed

text \<open>
  Claim C1 says that for every valid range the stream delivers \<open>end - start + 1\<close> bytes.
  The two bytes 1048575 and 1048576 lie on both sides of the first chunk boundary, in a file
  of three chunks. Both handlers plan one part with the cuts 1048575 and 1: whatever the
  backend returns (full chunks included), the slice \<^verbatim>\<open>[1048575:1]\<close> is empty and the body
  delivers no byte, under a \<^verbatim>\<open>Content-Length\<close> of 2.
\<close>

theorem range_across_boundary_streams_nothing:
  "(\<exists>resp. stream_handler example_loads (example_clients 3145728) example_decode
          (Some ''bytes=1048575-1048576'') 7 = Inr resp
      \<and> status_code resp = 206
      \<and> body_offset (body resp) = 0
      \<and> body_first_part_cut (body resp) = 1048575
      \<and> body_last_part_cut (body resp) = 1
      \<and> body_part_count (body resp) = 1
      \<and> dict_get (headers resp) ''Content-Length'' = Some ''2''
      \<and> (\<forall>session_setup send consumer.
            total_bytes (run_body example_loads session_setup send consumer (body resp)) = 0))
   \<and> (\<exists>resp. stream_media example_loads (example_clients 3145728) example_decode
          (Some ''bytes=1048575-1048576'') 7 = Inr resp
      \<and> status_code resp = 206
      \<and> body_offset (body resp) = 0
      \<and> body_first_part_cut (body resp) = 1048575
      \<and> body_last_part_cut (body resp) = 1
      \<and> body_part_count (body resp) = 1
      \<and> dict_get (headers resp) ''Content-Length'' = Some ''2''
      \<and> (\<forall>session_setup send consumer.
            total_bytes (run_body example_loads session_setup send consumer (body resp)) = 0))"
proof -
  define web where "web =
    \<lparr>status_code = 206,
     headers =
       [(''Content-Type'', ''video/mp4''),
        (''Content-Range'', ''bytes 1048575-1048576/3145728''),
        (''Content-Length'', ''2''),
        (''Accept-Ranges'', ''bytes''),
        (''Content-Disposition'', ''inline; filename='' @ [CHR 0x22] @ ''clip.mp4'' @ [CHR 0x22])],
     body =
       \<lparr>body_file_id = \<lparr>dc_id = 2, media_id = 1, access_hash = 0\<rparr>, body_index = 0,
        body_offset = 0, body_first_part_cut = 1048575, body_last_part_cut = 1,
        body_part_count = 1, body_chunk_size = 1048576\<rparr>\<rparr>"
  define app where "app =
    \<lparr>status_code = 206,
     headers =
       [(''Content-Type'', ''video/mp4''),
        (''Accept-Ranges'', ''bytes''),
        (''Content-Disposition'', ''inline; filename='' @ [CHR 0x22] @ ''clip.mp4'' @ [CHR 0x22]),
        (''Content-Length'', ''2''),
        (''Content-Range'', ''bytes 1048575-1048576/3145728'')],
     body =
       \<lparr>body_file_id = \<lparr>dc_id = 2, media_id = 1, access_hash = 0\<rparr>, body_index = 0,
        body_offset = 0, body_first_part_cut = 1048575, body_last_part_cut = 1,
        body_part_count = 1, body_chunk_size = 1048576\<rparr>\<rparr>"
  have hw: "stream_handler example_loads (example_clients 3145728) example_decode
      (Some ''bytes=1048575-1048576'') 7 = Inr web"
    unfolding web_def by code_simp
  have ha: "stream_media example_loads (example_clients 3145728) example_decode
      (Some ''bytes=1048575-1048576'') 7 = Inr app"
    unfolding app_def by code_simp
  have nw: "total_bytes (run_body example_loads session_setup send consumer (body web)) = 0"
    for session_setup send consumer
    unfolding web_def by (simp add: run_body_def one_part_crossed_streams_nothing)
  have na: "total_bytes (run_body example_loads session_setup send consumer (body app)) = 0"
    for session_setup send consumer
    unfolding app_def by (simp add: run_body_def one_part_crossed_streams_nothing)
  have pw: "status_code web = 206
      \<and> body_offset (body web) = 0
      \<and> body_first_part_cut (body web) = 1048575
      \<and> body_last_part_cut (body web) = 1
      \<and> body_part_count (body web) = 1
      \<and> dict_get (headers web) ''Content-Length'' = Some ''2''
      \<and> (\<forall>session_setup send consumer.
            total_bytes (run_body example_loads session_setup send consumer (body web)) = 0)"
    using nw by (simp add: web_def dict_get_def)
  have pa: "status_code app = 206
      \<and> body_offset (body app) = 0
      \<and> body_first_part_cut (body app) = 1048575
      \<and> body_last_part_cut (body app) = 1
      \<and> body_part_count (body app) = 1
      \<and> dict_get (headers app) ''Content-Length'' = Some ''2''
      \<and> (\<forall>session_setup send consumer.
            total_bytes (run_body example_loads session_setup send consumer (body app)) = 0)"
    using na by (simp add: app_def dict_get_def)
  from hw pw ha pa show ?thesis by blast
qed

subsection \<open>The bytes a plan stands for\<close>

lemma range_plan_cuts:
  assumes "range_plan file_size from_bytes until_bytes = Inr p"
  shows "0 \<le> plan_first_part_cut p \<and> plan_first_part_cut p < chunk_size
    \<and> 0 < plan_last_part_cut p \<and> plan_last_part_cut p \<le> chunk_size"
proof -
  have pos: "0 < chunk_size" by (simp add: chunk_size_def)
  from pos have "0 \<le> from_bytes mod chunk_size" "from_bytes mod chunk_size < chunk_size"
    "0 \<le> until_bytes mod chunk_size" "until_bytes mod chunk_size < chunk_size"
    by simp_all
  with range_plan_Inr(4,5) [OF assms] show ?thesis by simp
qed

text \<open>
  Claim C6 says that every plan of a valid request keeps its cuts inside a chunk, has at
  least one part, and stands for \<open>untilByte - fromByte + 1\<close> bytes. For the request
  \<^verbatim>\<open>bytes=500000-1500000\<close> on a file of 3,145,728 bytes (valid: \<open>0 \<le> 500000 \<le> 1500000\<close>
  and \<open>1500000 < 3145728\<close>) both handlers compute the same plan; its cuts and its part count
  are in range, but it has one part where the range touches two chunks, and the bytes it
  stands for are \<open>451425 - 500000 = - 48575\<close>, not the 1,000,001 requested.
\<close>

theorem plan_of_example_misses_a_part:
  "\<exists>p. range_plan 3145728 500000 1500000 = Inr p
     \<and> range_plan_app 3145728 500000 1500000 = Inr p
     \<and> plan_req_length p = 1500000 - 500000 + 1
     \<and> 0 \<le> plan_first_part_cut p \<and> plan_first_part_cut p < chunk_size
     \<and> 0 < plan_last_part_cut p \<and> plan_last_part_cut p \<le> chunk_size
     \<and> plan_part_count p = 1
     \<and> implied_bytes p = - 48575"
proof -
  define p where "p =
    \<lparr>plan_req_length = 1000001, plan_offset = 0, plan_first_part_cut = 500000,
     plan_last_part_cut = 451425, plan_part_count = 1\<rparr>"
  have h: "range_plan 3145728 500000 1500000 = Inr p"
    unfolding p_def by code_simp
  then have "range_plan_app 3145728 500000 1500000 = Inr p"
    by (simp add: range_plan_app_eq)
  moreover have "plan_req_length p = 1500000 - 500000 + 1" "plan_part_count p = 1"
    "implied_bytes p = - 48575"
    by (simp_all add: p_def implied_bytes_def)
  moreover note h range_plan_cuts [OF h]
  ultimately show ?thesis by blast
qed

section \<open>Statuses and headers\<close>

lemma http_status_stream_media:
  "http_status (stream_media work_loads multi_clients decode rh mid) \<in> {404, 500, 503}
   \<or> (\<exists>c resp. stream_media_try c decode (select_index work_loads) rh mid = Inr resp)"
  by (auto simp add: stream_media_def http_status_def Let_def
        split: option.splits sum.splits exn.splits)

text \<open>
  Claim C5 says that a request without a \<^verbatim>\<open>Range\<close> header is answered with status 200 and the
  whole file. In \<^verbatim>\<open>app.py\<close> the test \<^verbatim>\<open>if ubs:\<close> is not nested under \<^verbatim>\<open>if rh:\<close>, so such a
  request (its header absent or empty) reads a name that was never bound; the
  \<^verbatim>\<open>UnboundLocalError\<close> is caught by \<^verbatim>\<open>except Exception\<close>. Whatever the pool, the store and the
  message, \<^verbatim>\<open>stream_media\<close> answers 404, 500 or 503 and never 200; for a stored file of 100
  bytes it answers 500, where \<^verbatim>\<open>stream_handler\<close> of \<^verbatim>\<open>webserver.py\<close> answers 200.
\<close>

theorem stream_media_without_range_fails:
  "http_status (stream_media work_loads multi_clients decode None mid) \<in> {404, 500, 503}
   \<and> http_status (stream_media work_loads multi_clients decode (Some []) mid) \<in> {404, 500, 503}
   \<and> stream_media example_loads (example_clients 100) example_decode None 7
       = Inl (HTTPException 500)
   \<and> http_status (stream_handler example_loads (example_clients 100) example_decode None 7) = 200"
proof -
  have a: "http_status (stream_media work_loads multi_clients decode None mid) \<in> {404, 500, 503}"
    using http_status_stream_media [of work_loads multi_clients decode None mid]
      stream_media_try_no_range(1) by blast
  have b: "http_status (stream_media work_loads multi_clients decode (Some []) mid)
      \<in> {404, 500, 503}"
    using http_status_stream_media [of work_loads multi_clients decode "Some []" mid]
      stream_media_try_no_range(2) by blast
  have c: "stream_media example_loads (example_clients 100) example_decode None 7
      = Inl (HTTPException 500)"
    by code_simp
  have d: "http_status (stream_handler example_loads (example_clients 100) example_decode None 7)
      = 200"
    by code_simp
  from a b c d show ?thesis by blast
qed

text \<open>
  Claim C8 says that \<^verbatim>\<open>Content-Range\<close> is present exactly on the partial responses. The
  header dictionary of \<^verbatim>\<open>stream_handler\<close> in \<^verbatim>\<open>webserver.py\<close> holds it unconditionally (the
  one of \<^verbatim>\<open>stream_media\<close> in \<^verbatim>\<open>app.py\<close> adds it under \<^verbatim>\<open>if rh:\<close>): the full response to a
  request without a \<^verbatim>\<open>Range\<close> header for a file of 100 bytes has status 200 and carries
  \<^verbatim>\<open>Content-Range: bytes 0-99/100\<close>.
\<close>

theorem full_response_carries_content_range:
  "\<exists>resp. stream_handler example_loads (example_clients 100) example_decode None 7 = Inr resp
     \<and> status_code resp = 200
     \<and> dict_get (headers resp) ''Content-Range'' = Some ''bytes 0-99/100''
     \<and> dict_get (headers resp) ''Content-Length'' = Some ''100''
     \<and> dict_keys (headers resp)
         = [''Content-Type'', ''Content-Range'', ''Content-Length'', ''Accept-Ranges'',
            ''Content-Disposition'']"
proof -
  define web where "web =
    \<lparr>status_code = 200,
     headers =
       [(''Content-Type'', ''video/mp4''),
        (''Content-Range'', ''bytes 0-99/100''),
        (''Content-Length'', ''100''),
        (''Accept-Ranges'', ''bytes''),
        (''Content-Disposition'', ''inline; filename='' @ [CHR 0x22] @ ''clip.mp4'' @ [CHR 0x22])],
     body =
       \<lparr>body_file_id = \<lparr>dc_id = 2, media_id = 1, access_hash = 0\<rparr>, body_index = 0,
        body_offset = 0, body_first_part_cut = 0, body_last_part_cut = 100,
        body_part_count = 1, body_chunk_size = 1048576\<rparr>\<rparr>"
  have h: "stream_handler example_loads (example_clients 100) example_decode None 7 = Inr web"
    unfolding web_def by code_simp
  have "status_code web = 200"
    "dict_get (headers web) ''Content-Range'' = Some ''bytes 0-99/100''"
    "dict_get (headers web) ''Content-Length'' = Some ''100''"
    "dict_keys (headers web)
       = [''Content-Type'', ''Content-Range'', ''Content-Length'', ''Accept-Ranges'',
          ''Content-Disposition'']"
    by (simp_all add: web_def dict_get_def dict_keys_def)
  with h show ?thesis by blast
qed

subsection \<open>The range check\<close>

lemma range_plan_416:
  "range_plan file_size from_bytes until_bytes = Inl (HTTPException 416)
     \<longleftrightarrow> until_bytes \<ge> file_size \<or> from_bytes < 0"
  by (simp add: range_plan_def Let_def and_then_Inl py_truediv_no_http)

lemma stream_handler_try_status:
  assumes "stream_handler_try cl decode index range_header msg_id = Inr resp"
  shows "status_code resp \<in> {200, 206}"
  using assms
  by (auto simp add: stream_handler_try_def and_then_Inr Let_def split: if_splits)

lemma stream_media_try_status:
  assumes "stream_media_try c decode i rh mid = Inr resp"
  shows "status_code resp \<in> {200, 206}"
  using assms
  by (auto simp add: stream_media_try_def and_then_Inr Let_def split: if_splits)

lemma http_status_stream_handler_cases:
  "http_status (stream_handler work_loads multi_clients decode range_header msg_id)
     \<in> {200, 206, 404, 500, 503}"
proof (cases "dict_get multi_clients (select_index work_loads)")
  case None
  then show ?thesis by (simp add: stream_handler_def http_status_def Let_def)
next
  case (Some cl)
  show ?thesis
  proof (cases "stream_handler_try cl decode (select_index work_loads) range_header msg_id")
    case (Inr resp)
    with Some stream_handler_try_status [OF Inr] show ?thesis
      by (auto simp add: stream_handler_def http_status_def Let_def)
  next
    case (Inl e)
    with Some show ?thesis
      by (cases e) (simp_all add: stream_handler_def http_status_def Let_def)
  qed
qed

lemma http_status_stream_media_cases:
  "http_status (stream_media work_loads multi_clients decode rh mid)
     \<in> {200, 206, 404, 500, 503}"
proof (cases "dict_get multi_clients (select_index work_loads)")
  case None
  then show ?thesis by (simp add: stream_media_def http_status_def Let_def)
next
  case (Some c)
  show ?thesis
  proof (cases "stream_media_try c decode (select_index work_loads) rh mid")
    case (Inr resp)
    with Some stream_media_try_status [OF Inr] show ?thesis
      by (auto simp add: stream_media_def http_status_def Let_def)
  next
    case (Inl e)
    with Some show ?thesis
      by (cases e) (simp_all add: stream_media_def http_status_def Let_def)
  qed
qed

text \<open>
  Claim C2 says that the handler answers 416, with no body, exactly when
  \<open>untilByte \<ge> fileSize\<close>, or \<open>fromByte < 0\<close>, or \<open>fromByte > untilByte\<close>. Both handlers do
  raise \<^verbatim>\<open>HTTPException(416)\<close> for the first two conditions, but inside the \<^verbatim>\<open>try\<close>, and an
  \<^verbatim>\<open>HTTPException\<close> is an \<^verbatim>\<open>Exception\<close>: the handler's own \<^verbatim>\<open>except Exception\<close> catches it. So
  no request at all is answered 416: the status is 200, 206, 404, 500 or 503. For the range
  0 to 200 of a file of 100 bytes the \<^verbatim>\<open>try\<close> block of each handler raises the 416;
  \<^verbatim>\<open>stream_media\<close> then raises \<^verbatim>\<open>HTTPException(500)\<close>, and \<^verbatim>\<open>stream_handler\<close> is left by the
  \<^verbatim>\<open>NameError\<close> of its \<^verbatim>\<open>print\<close>, which the server answers with 500 as well. The third
  condition is not tested: the range 50 to 10 of that file is answered 206.
\<close>

theorem unsatisfiable_range_is_answered_500:
  "http_status (stream_handler work_loads multi_clients decode range_header msg_id)
     \<in> {200, 206, 404, 500, 503}
   \<and> http_status (stream_media work_loads multi_clients decode range_header msg_id)
     \<in> {200, 206, 404, 500, 503}
   \<and> stream_handler_try (example_client 100) example_decode 0 (Some ''bytes=0-200'') 7
     = Inl (HTTPException 416)
   \<and> stream_media_try (example_client 100) example_decode 0 (Some ''bytes=0-200'') 7
     = Inl (HTTPException 416)
   \<and> stream_handler example_loads (example_clients 100) example_decode
       (Some ''bytes=0-200'') 7 = Inl NameError
   \<and> stream_media example_loads (example_clients 100) example_decode
       (Some ''bytes=0-200'') 7 = Inl (HTTPException 500)
   \<and> http_status (stream_handler example_loads (example_clients 100) example_decode
       (Some ''bytes=0-200'') 7) = 500
   \<and> http_status (stream_media example_loads (example_clients 100) example_decode
       (Some ''bytes=0-200'') 7) = 500
   \<and> http_status (stream_handler example_loads (example_clients 100) example_decode
       (Some ''bytes=50-10'') 7) = 206
   \<and> http_status (stream_media example_loads (example_clients 100) example_decode
       (Some ''bytes=50-10'') 7) = 206"
proof -
  have a: "http_status (stream_handler work_loads multi_clients decode range_header msg_id)
      \<in> {200, 206, 404, 500, 503}"
    by (rule http_status_stream_handler_cases)
  have b: "http_status (stream_media work_loads multi_clients decode range_header msg_id)
      \<in> {200, 206, 404, 500, 503}"
    by (rule http_status_stream_media_cases)
  have c: "stream_handler_try (example_client 100) example_decode 0 (Some ''bytes=0-200'') 7
      = Inl (HTTPException 416)"
    by code_simp
  have d: "stream_media_try (example_client 100) example_decode 0 (Some ''bytes=0-200'') 7
      = Inl (HTTPException 416)"
    by code_simp
  have e: "stream_handler example_loads (example_clients 100) example_decode
      (Some ''bytes=0-200'') 7 = Inl NameError"
    by code_simp
  have f: "stream_media example_loads (example_clients 100) example_decode
      (Some ''bytes=0-200'') 7 = Inl (HTTPException 500)"
    by code_simp
  have g: "http_status (stream_handler example_loads (example_clients 100) example_decode
      (Some ''bytes=0-200'') 7) = 500"
    by (simp add: e http_status_def)
  have h: "http_status (stream_media example_loads (example_clients 100) example_decode
      (Some ''bytes=0-200'') 7) = 500"
    by (simp add: f http_status_def)
  have i: "http_status (stream_handler example_loads (example_clients 100) example_decode
      (Some ''bytes=50-10'') 7) = 206"
    by code_simp
  have j: "http_status (stream_media example_loads (example_clients 100) example_decode
      (Some ''bytes=50-10'') 7) = 206"
    by code_simp
  from a b c d e f g h i j show ?thesis by (intro conjI)
qed

end
